theory Spec2Isabelle
  imports Complex_Main "HOL-Library.Sublist" "HOL-Library.Code_Target_Nat"
begin

section \<open>JavaScript strings\<close>

text \<open>
  A JavaScript string is a sequence of UTF-16 code units; \<open>length\<close>, \<open>charAt\<close>,
  \<open>slice\<close> and the regular expressions without the \<open>u\<close> flag all count code units.
  A code unit is modelled by its numeric value. \<open>js\<close> embeds an ASCII literal, and a
  character outside ASCII is written by its code units (the fire emoji U+1F525 is the
  surrogate pair \<open>[0xD83D, 0xDD25]\<close>).
\<close>

type_synonym jsstring = "nat list"

definition js :: "string \<Rightarrow> jsstring" where
  "js w = map of_char w"

definition slice :: "jsstring \<Rightarrow> nat \<Rightarrow> nat \<Rightarrow> jsstring" where
  "slice s a b = take (b - a) (drop a s)"

text \<open>\<open>s.includes(t)\<close>: \<open>t\<close> occurs in \<open>s\<close> as a contiguous run.\<close>

fun includesStr :: "jsstring \<Rightarrow> jsstring \<Rightarrow> bool" where
  "includesStr [] t = (t = [])"
| "includesStr (x # xs) t = (prefix t (x # xs) \<or> includesStr xs t)"

definition startsWith :: "jsstring \<Rightarrow> jsstring \<Rightarrow> bool" where
  "startsWith s t = prefix t s"

text \<open>White space and line terminators: the class \<open>\s\<close>, and what \<open>trim\<close> removes.\<close>

definition isSpace :: "nat \<Rightarrow> bool" where
  "isSpace c = (c \<in> {0x9, 0xA, 0xB, 0xC, 0xD, 0x20, 0xA0, 0x1680, 0x2028, 0x2029,
                      0x202F, 0x205F, 0x3000, 0xFEFF} \<or> (0x2000 \<le> c \<and> c \<le> 0x200A))"

definition isDigit :: "nat \<Rightarrow> bool" where
  "isDigit c = (0x30 \<le> c \<and> c \<le> 0x39)"

text \<open>The class of \<open>.\<close> (no \<open>s\<close> flag): everything but the line terminators.\<close>

definition isAny :: "nat \<Rightarrow> bool" where
  "isAny c = (c \<notin> {0xA, 0xD, 0x2028, 0x2029})"

definition trim :: "jsstring \<Rightarrow> jsstring" where
  "trim s = rev (dropWhile isSpace (rev (dropWhile isSpace s)))"

definition isHigh :: "nat \<Rightarrow> bool" where
  "isHigh c = (0xD800 \<le> c \<and> c \<le> 0xDBFF)"

definition isLow :: "nat \<Rightarrow> bool" where
  "isLow c = (0xDC00 \<le> c \<and> c \<le> 0xDFFF)"

definition codePoint :: "nat \<Rightarrow> nat \<Rightarrow> nat" where
  "codePoint hi lo = (hi - 0xD800) * 0x400 + (lo - 0xDC00) + 0x10000"

text \<open>
  The code points of a string: a high surrogate followed by a low one is one code point,
  every other code unit stands for itself.
\<close>

fun codePoints :: "jsstring \<Rightarrow> nat list" where
  "codePoints [] = []"
| "codePoints [c] = [c]"
| "codePoints (c # d # s) =
     (if isHigh c \<and> isLow d then codePoint c d # codePoints s else c # codePoints (d # s))"

text \<open>
  Case conversion of ASCII: the letters \<open>a\<close> to \<open>z\<close> and \<open>A\<close> to \<open>Z\<close>.
\<close>

definition upperAscii :: "nat \<Rightarrow> nat" where
  "upperAscii c = (if 0x61 \<le> c \<and> c \<le> 0x7A then c - 0x20 else c)"

definition lowerUnit :: "nat \<Rightarrow> nat" where
  "lowerUnit c = (if 0x41 \<le> c \<and> c \<le> 0x5A then c + 0x20 else c)"

text \<open>The code units of a code point.\<close>

definition encode :: "nat \<Rightarrow> jsstring" where
  "encode c =
     (if c < 0x10000 then [c]
      else [0xD800 + (c - 0x10000) div 0x400, 0xDC00 + (c - 0x10000) mod 0x400])"

text \<open>
  \<open>s.toUpperCase()\<close> replaces every code point of \<open>s\<close> by its upper-case form, which
  depends on nothing but the code point. On ASCII the form is the one above. Beyond
  ASCII it is a row of the Unicode table of the runtime, which is a parameter: \<open>up c\<close>
  is the upper-case form of the code point \<open>c\<close>, given as its first code point and the
  code points after it, since the form is never empty (U+00E4 gives U+00C4 and nothing
  after it, U+00DF gives "SS", a code point without case gives itself).
\<close>

type_synonym caseTable = "nat \<Rightarrow> nat \<times> nat list"

definition upperPoint :: "caseTable \<Rightarrow> nat \<Rightarrow> jsstring" where
  "upperPoint up c =
     (if c < 0x80 then [upperAscii c] else concat (map encode (fst (up c) # snd (up c))))"

definition toUpperCase :: "caseTable \<Rightarrow> jsstring \<Rightarrow> jsstring" where
  "toUpperCase up s = concat (map (upperPoint up) (codePoints s))"

text \<open>
  \<open>s.toLowerCase()\<close> with the table of ASCII; every other code unit is left as it is,
  which is what JavaScript does for the caseless characters (digits, punctuation, emoji).
\<close>

definition toLowerCase :: "jsstring \<Rightarrow> jsstring" where
  "toLowerCase s = map lowerUnit s"

section \<open>Regular expressions\<close>

text \<open>
  The patterns of the parser are values of \<open>rx\<close>, and \<open>m\<close> is the backtracking
  matcher of ECMAScript in continuation style: \<open>m r x k\<close> matches \<open>r\<close> from the state
  \<open>x\<close> and hands every way of matching to the continuation \<open>k\<close>, in the order of
  priority, until one succeeds. A state holds the current index, the code unit before
  it, the rest of the input from the index on, and the captures so far.

  \<^item> \<open>Unit p\<close> reads one code unit in the class \<open>p\<close>; \<open>Point p\<close> is its counterpart
    under the \<open>u\<close> flag and reads one code point, a surrogate pair counting as one.
  \<^item> \<open>Star\<close> is the greedy \<open>*\<close>, \<open>Lazy\<close> is \<open>*?\<close>, \<open>Opt\<close> is the greedy \<open>?\<close>. An
    iteration that consumes nothing is rejected, as in ECMAScript.
  \<^item> \<open>Group n r\<close> is the capturing group number \<open>n\<close>; \<open>Bol\<close> and \<open>Eol\<close> are \<open>^\<close> and
    \<open>$\<close> without the \<open>m\<close> flag; \<open>NotAfter p\<close> is the look-behind \<open>(?<!c)\<close> for a single
    character class. No pattern of the parser has a group inside a repetition, so the
    captures of an earlier iteration are never to be reset.
\<close>

datatype rx =
    Empty
  | Unit "nat \<Rightarrow> bool"
  | Point "nat \<Rightarrow> bool"
  | Cat rx rx
  | Alt rx rx
  | Star rx
  | Lazy rx
  | Opt rx
  | Group nat rx
  | Bol
  | Eol
  | NotAfter "nat \<Rightarrow> bool"

type_synonym captures = "(nat \<times> nat \<times> nat) list"

datatype mstate = St (pos: nat) (prev: "nat option") (rest: jsstring) (caps: captures)

text \<open>\<open>shorter y rs\<close>: the state \<open>y\<close> lies beyond the state whose rest is \<open>rs\<close>.\<close>

fun shorter :: "mstate \<Rightarrow> jsstring \<Rightarrow> bool" where
  "shorter (St j pv rs' cs) rs = (length rs' < length rs)"

fun capture :: "nat \<Rightarrow> nat \<Rightarrow> mstate \<Rightarrow> mstate" where
  "capture n i (St j pv rs cs) = St j pv rs ((n, i, j) # cs)"

function (sequential) m :: "rx \<Rightarrow> mstate \<Rightarrow> (mstate \<Rightarrow> mstate option) \<Rightarrow> mstate option" where
  "m Empty (St i pv rs cs) k = k (St i pv rs cs)"
| "m (Unit p) (St i pv [] cs) k = None"
| "m (Unit p) (St i pv (c # t) cs) k =
     (if p c then k (St (Suc i) (Some c) t cs) else None)"
| "m (Point p) (St i pv [] cs) k = None"
| "m (Point p) (St i pv [c] cs) k =
     (if p c then k (St (Suc i) (Some c) [] cs) else None)"
| "m (Point p) (St i pv (c # d # t) cs) k =
     (if isHigh c \<and> isLow d
      then (if p (codePoint c d) then k (St (i + 2) (Some d) t cs) else None)
      else (if p c then k (St (Suc i) (Some c) (d # t) cs) else None))"
| "m (Cat a b) (St i pv rs cs) k = m a (St i pv rs cs) (\<lambda>y. m b y k)"
| "m (Alt a b) (St i pv rs cs) k =
     (case m a (St i pv rs cs) k of
        Some z \<Rightarrow> Some z
      | None \<Rightarrow> m b (St i pv rs cs) k)"
| "m (Star a) (St i pv rs cs) k =
     (case m a (St i pv rs cs) (\<lambda>y. if shorter y rs then m (Star a) y k else None) of
        Some z \<Rightarrow> Some z
      | None \<Rightarrow> k (St i pv rs cs))"
| "m (Lazy a) (St i pv rs cs) k =
     (case k (St i pv rs cs) of
        Some z \<Rightarrow> Some z
      | None \<Rightarrow> m a (St i pv rs cs) (\<lambda>y. if shorter y rs then m (Lazy a) y k else None))"
| "m (Opt a) (St i pv rs cs) k =
     (case m a (St i pv rs cs) (\<lambda>y. if shorter y rs then k y else None) of
        Some z \<Rightarrow> Some z
      | None \<Rightarrow> k (St i pv rs cs))"
| "m (Group n a) (St i pv rs cs) k = m a (St i pv rs cs) (\<lambda>y. k (capture n i y))"
| "m Bol (St i pv rs cs) k = (if i = 0 then k (St i pv rs cs) else None)"
| "m Eol (St i pv rs cs) k = (if rs = [] then k (St i pv rs cs) else None)"
| "m (NotAfter p) (St i pv rs cs) k =
     (case pv of
        None \<Rightarrow> k (St i pv rs cs)
      | Some c \<Rightarrow> if p c then None else k (St i pv rs cs))"
  by pat_completeness auto
termination
proof (relation "inv_image (less_than <*lex*> less_than) (\<lambda>(r, x, k). (size r, length (rest x)))")
  fix a :: rx and i :: nat and pv :: "nat option" and rs :: jsstring and cs :: captures
    and k :: "mstate \<Rightarrow> mstate option" and y :: mstate
  assume "shorter y rs"
  then show "((Star a, y, k), (Star a, St i pv rs cs, k))
      \<in> inv_image (less_than <*lex*> less_than) (\<lambda>(r, x, k). (size r, length (rest x)))"
    by (cases y) simp
  assume "shorter y rs"
  then show "((Lazy a, y, k), (Lazy a, St i pv rs cs, k))
      \<in> inv_image (less_than <*lex*> less_than) (\<lambda>(r, x, k). (size r, length (rest x)))"
    by (cases y) simp
qed auto

declare m.simps [simp del]

text \<open>
  \<open>AdvanceStringIndex\<close> from the index \<open>i\<close>, where the input goes on with \<open>c # t\<close>: one
  code unit further, or a whole surrogate pair under the \<open>u\<close> flag.
\<close>

fun advance :: "bool \<Rightarrow> nat \<Rightarrow> nat \<Rightarrow> jsstring \<Rightarrow> mstate" where
  "advance u i c [] = St (Suc i) (Some c) [] []"
| "advance u i c (d # t) =
     (if u \<and> isHigh c \<and> isLow d then St (i + 2) (Some d) t []
      else St (Suc i) (Some c) (d # t) [])"

text \<open>
  The search loop of \<open>RegExpBuiltinExec\<close>: the first index, from the state \<open>x\<close> on, at
  which the pattern matches, with the state at the end of the match. Every attempt starts
  without captures.
\<close>

function (sequential) search :: "bool \<Rightarrow> rx \<Rightarrow> mstate \<Rightarrow> (nat \<times> mstate) option" where
  "search u r (St i pv [] cs) =
     (case m r (St i pv [] []) Some of
        Some y \<Rightarrow> Some (i, y)
      | None \<Rightarrow> None)"
| "search u r (St i pv (c # t) cs) =
     (case m r (St i pv (c # t) []) Some of
        Some y \<Rightarrow> Some (i, y)
      | None \<Rightarrow> search u r (advance u i c t))"
  by pat_completeness auto
termination
proof (relation "measure (\<lambda>(u, r, x). length (rest x))")
  fix u :: bool and r :: rx and i c :: nat and t :: jsstring and pv :: "nat option" and cs :: captures
  show "((u, r, advance u i c t), (u, r, St i pv (c # t) cs))
      \<in> measure (\<lambda>(u, r, x). length (rest x))"
    by (cases t) simp_all
qed simp

declare search.simps [simp del]

text \<open>
  The loop of a global (\<open>g\<close>) pattern: every match from left to right as (index, end,
  captures). The search resumes where the last match ended, and one position further
  after an empty match. The state it resumes from is always beyond the one it started
  from; the test on the lengths says so for the termination of the definition.
\<close>

fun resume :: "bool \<Rightarrow> nat \<Rightarrow> mstate \<Rightarrow> mstate option" where
  "resume u j (St e pv [] cs) = (if e = j then None else Some (St e pv [] cs))"
| "resume u j (St e pv (c # t) cs) =
     (if e = j then Some (advance u e c t) else Some (St e pv (c # t) cs))"

function gmatches :: "bool \<Rightarrow> rx \<Rightarrow> mstate \<Rightarrow> (nat \<times> nat \<times> captures) list" where
  "gmatches u r x =
     (case search u r x of
        None \<Rightarrow> []
      | Some (j, y) \<Rightarrow>
          (j, pos y, caps y) #
          (case resume u j y of
             None \<Rightarrow> []
           | Some x' \<Rightarrow> if length (rest x') < length (rest x) then gmatches u r x' else []))"
  by pat_completeness auto
termination
  by (relation "measure (\<lambda>(u, r, x). length (rest x))") auto

declare gmatches.simps [simp del]

definition start :: "jsstring \<Rightarrow> mstate" where
  "start s = St 0 None s []"

text \<open>\<open>pattern.test(s)\<close> and \<open>s.match(pattern)\<close> for a pattern without the \<open>g\<close> flag.\<close>

definition test :: "rx \<Rightarrow> jsstring \<Rightarrow> bool" where
  "test r s = (search False r (start s) \<noteq> None)"

definition match :: "jsstring \<Rightarrow> rx \<Rightarrow> (nat \<times> nat \<times> captures) option" where
  "match s r =
     (case search False r (start s) of
        None \<Rightarrow> None
      | Some (j, y) \<Rightarrow> Some (j, pos y, caps y))"

text \<open>
  \<open>match[n]\<close>: the text of group \<open>n\<close>. Every group that the parser reads is set on
  every path through its pattern (\<open>groups_of_the_parser\<close> below), so the second case
  never decides a result.
\<close>

definition group :: "jsstring \<Rightarrow> nat \<times> nat \<times> captures \<Rightarrow> nat \<Rightarrow> jsstring" where
  "group s mt n =
     (case map_of (snd (snd mt)) n of Some (a, b) \<Rightarrow> slice s a b | None \<Rightarrow> [])"

text \<open>\<open>sure r g\<close>: the group \<open>g\<close> is set on every path through the pattern \<open>r\<close>.\<close>

fun sure :: "rx \<Rightarrow> nat \<Rightarrow> bool" where
  "sure (Group n a) g = (g = n \<or> sure a g)"
| "sure (Cat a b) g = (sure a g \<or> sure b g)"
| "sure (Alt a b) g = (sure a g \<and> sure b g)"
| "sure r g = False"

text \<open>\<open>s.match(pattern) || []\<close> for a global pattern: the matched substrings.\<close>

definition matchAll :: "jsstring \<Rightarrow> rx \<Rightarrow> jsstring list" where
  "matchAll s r = map (\<lambda>mt. slice s (fst mt) (fst (snd mt))) (gmatches False r (start s))"

text \<open>
  \<open>s.replace(pattern, rep)\<close> with a replacement text free of \<open>$\<close>: the pieces between
  the matches, joined by \<open>rep\<close>.
\<close>

fun splice :: "jsstring \<Rightarrow> nat \<Rightarrow> (nat \<times> nat \<times> captures) list \<Rightarrow> jsstring \<Rightarrow> jsstring" where
  "splice s p [] rep = drop p s"
| "splice s p (mt # ms) rep =
     (if p \<le> fst mt then slice s p (fst mt) @ rep @ splice s (fst (snd mt)) ms rep
      else splice s p ms rep)"

definition replaceAll :: "bool \<Rightarrow> jsstring \<Rightarrow> rx \<Rightarrow> jsstring \<Rightarrow> jsstring" where
  "replaceAll u s r rep = splice s 0 (gmatches u r (start s)) rep"

definition replaceFirst :: "jsstring \<Rightarrow> rx \<Rightarrow> jsstring \<Rightarrow> jsstring" where
  "replaceFirst s r rep =
     (case match s r of
        None \<Rightarrow> s
      | Some mt \<Rightarrow> take (fst mt) s @ rep @ drop (fst (snd mt)) s)"

subsection \<open>Writing patterns\<close>

definition lit :: "char \<Rightarrow> nat \<Rightarrow> bool" where
  "lit c u = (u = of_char c)"

text \<open>
  \<open>Canonicalize\<close> of the \<open>i\<close> flag (without \<open>u\<close>): a code unit is compared by its
  upper-case form, and a code unit outside ASCII never folds onto an ASCII one. Beyond
  ASCII the table has the rows of the characters that occur in the patterns: U+00E7
  folds to U+00C7, and U+03C0 and U+03D6 fold to U+03A0.
\<close>

definition canonicalize :: "nat \<Rightarrow> nat" where
  "canonicalize u =
     (if u < 0x80 then upperAscii u
      else if u = 0xE7 then 0xC7
      else if u = 0x3C0 \<or> u = 0x3D6 then 0x3A0
      else u)"

definition isI :: "nat \<Rightarrow> nat \<Rightarrow> bool" where
  "isI c u = (canonicalize u = canonicalize c)"

definition seq :: "rx list \<Rightarrow> rx" where
  "seq rs = foldr Cat rs Empty"

fun alts :: "rx list \<Rightarrow> rx" where
  "alts [] = Empty"
| "alts [r] = r"
| "alts (r # rs) = Alt r (alts rs)"

definition Plus :: "rx \<Rightarrow> rx" where
  "Plus a = Cat a (Star a)"

text \<open>A literal run of characters, case-sensitive (\<open>str\<close>) or under the \<open>i\<close> flag (\<open>strI\<close>).\<close>

definition str :: "string \<Rightarrow> rx" where
  "str w = seq (map (\<lambda>c. Unit (lit c)) w)"

definition strI :: "string \<Rightarrow> rx" where
  "strI w = seq (map (\<lambda>c. Unit (isI (of_char c))) w)"

definition units :: "nat list \<Rightarrow> rx" where
  "units w = seq (map (\<lambda>c. Unit (\<lambda>u. u = c)) w)"

definition unitsI :: "nat list \<Rightarrow> rx" where
  "unitsI w = seq (map (\<lambda>c. Unit (isI c)) w)"

section \<open>Numbers\<close>

text \<open>
  The amounts the parser computes with are decimal numerals read from the text. A
  number is given by its exact value, a rational; \<open>NaN\<close> and \<open>null\<close> are \<open>None\<close>.
  \<open>parseFloat\<close> and \<open>parseInt\<close> read the longest numeral at the head of a string of
  digits and dots, which is all the parser hands to them (a capture with its commas
  removed); a string that starts with no numeral gives \<open>NaN\<close>. \<open>parseFloat\<close> gives the
  value of the numeral; the double nearest to it, which is what the code holds, is taken
  where the code computes with the number (\<open>derivedDiscount\<close>).
\<close>

definition digitsValue :: "jsstring \<Rightarrow> nat" where
  "digitsValue ds = foldl (\<lambda>a c. 10 * a + (c - 0x30)) 0 ds"

definition parseFloat :: "jsstring \<Rightarrow> rat option" where
  "parseFloat s =
     (let ip = takeWhile isDigit s;
          rest = dropWhile isDigit s;
          fp = (case rest of [] \<Rightarrow> [] | c # t \<Rightarrow> if c = 0x2E then takeWhile isDigit t else [])
      in if ip = [] \<and> fp = [] then None
         else Some (of_nat (digitsValue ip) + of_nat (digitsValue fp) / 10 ^ length fp))"

definition parseInt :: "jsstring \<Rightarrow> int option" where
  "parseInt s =
     (let ds = takeWhile isDigit s
      in if ds = [] then None else Some (int (digitsValue ds)))"

text \<open>\<open>Math.round\<close>: the nearest integer, a half going up.\<close>

definition mathRound :: "rat \<Rightarrow> int" where
  "mathRound x = \<lfloor>x + 1 / 2\<rfloor>"

text \<open>
  The arithmetic of \<open>extractDiscount\<close> is that of IEEE 754 doubles: every operation
  returns the double nearest to the exact result, a tie going to the even significand.
  A finite double is given by its exact value. \<open>toDouble x\<close> is the double nearest to
  \<open>x\<close>: with \<open>e\<close> the binary exponent of \<open>x\<close>, and not below that of the smallest normal
  double, \<open>x\<close> is rounded to a multiple of \<open>2 ^ (e - 52)\<close>; the result is \<open>None\<close> when it
  is beyond the largest double, where JavaScript has an infinity.
\<close>

function bitLength :: "int \<Rightarrow> int" where
  "bitLength a = (if a \<le> 0 then 0 else bitLength (a div 2) + 1)"
  by pat_completeness auto
termination
  by (relation "measure nat") auto

declare bitLength.simps [simp del]

definition pow2 :: "int \<Rightarrow> rat" where
  "pow2 e = (if 0 \<le> e then 2 ^ nat e else 1 / 2 ^ nat (- e))"

text \<open>The binary exponent of \<open>x\<close>: \<open>2 ^ e \<le> |x| < 2 ^ (e + 1)\<close> (\<open>exponent_bounds\<close> below).\<close>

definition exponent :: "rat \<Rightarrow> int" where
  "exponent x =
     (let e = bitLength (fst (quotient_of \<bar>x\<bar>)) - bitLength (snd (quotient_of \<bar>x\<bar>))
      in if \<bar>x\<bar> < pow2 e then e - 1 else e)"

definition roundHalfEven :: "rat \<Rightarrow> int" where
  "roundHalfEven y =
     (let f = \<lfloor>y\<rfloor>; r = y - of_int f
      in if r < 1 / 2 then f else if 1 / 2 < r then f + 1 else if even f then f else f + 1)"

definition toDouble :: "rat \<Rightarrow> rat option" where
  "toDouble x =
     (if x = 0 then Some 0
      else if 1023 < exponent x then None
      else (let q = pow2 (max (exponent x) (- 1022) - 52);
                n = roundHalfEven (x / q)
            in if exponent x = 1023 \<and> \<bar>n\<bar> = 9007199254740992 then None
               else Some (of_int n * q)))"

text \<open>A number or \<open>null\<close> used as a condition: \<open>null\<close> and \<open>0\<close> are false.\<close>

definition truthy :: "'a::zero option \<Rightarrow> bool" where
  "truthy p = (case p of None \<Rightarrow> False | Some v \<Rightarrow> v \<noteq> 0)"

text \<open>A string, \<open>null\<close> or \<open>undefined\<close> used as a condition: only a non-empty string is true.\<close>

definition truthyStr :: "jsstring option \<Rightarrow> bool" where
  "truthyStr p = (case p of None \<Rightarrow> False | Some v \<Rightarrow> v \<noteq> [])"

section \<open>The tables of the parser\<close>

definition STORE_PATTERNS :: "(jsstring \<times> rx list) list" where
  "STORE_PATTERNS =
    [(js ''Amazon'', [strI ''amazon.in'', strI ''amazon.com'', strI ''amazon.co.uk'',
        strI ''amazon.de'', strI ''amazon.ca'', strI ''amazon.com.au'', strI ''amzn.to'',
        strI ''amzn.com'']),
     (js ''Steam'', [strI ''store.steampowered.com'', strI ''steampowered.com'']),
     (js ''Epic Games'', [strI ''epicgames.com'', strI ''store.epicgames.com'']),
     (js ''GOG'', [strI ''gog.com'']),
     (js ''Humble Bundle'', [strI ''humblebundle.com'']),
     (js ''PlayStation'', [strI ''store.playstation.com'', strI ''playstation.com'']),
     (js ''Xbox'', [strI ''xbox.com'', strI ''microsoft.com/store'']),
     (js ''Nintendo'', [strI ''nintendo.com'']),
     (js ''Best Buy'', [strI ''bestbuy.com'', strI ''bestbuy.ca'']),
     (js ''Walmart'', [strI ''walmart.com'', strI ''walmart.ca'']),
     (js ''Target'', [strI ''target.com'']),
     (js ''Newegg'', [strI ''newegg.com'']),
     (js ''B&H Photo'', [strI ''bhphotovideo.com'']),
     (js ''eBay'', [strI ''ebay.com'', strI ''ebay.co.uk'']),
     (js ''AliExpress'', [strI ''aliexpress.com'']),
     (js ''Flipkart'', [strI ''flipkart.com'', strI ''fkrt.it'']),
     (js ''Myntra'', [strI ''myntra.com'']),
     (js ''Ajio'', [strI ''ajio.com'']),
     (js ''Nykaa'', [strI ''nykaa.com'']),
     (js ''Croma'', [strI ''croma.com'']),
     (js ''Reliance'', [strI ''reliancedigital.in'', strI ''jiomart.com'']),
     (js ''Tata'', [strI ''tatacliq.com'', strI ''bigbasket.com'']),
     (js ''Paytm'', [strI ''paytmmall.com'']),
     (js ''Shopclues'', [strI ''shopclues.com'']),
     (js ''Snapdeal'', [strI ''snapdeal.com'']),
     (js ''Meesho'', [strI ''meesho.com'']),
     (js ''Blinkit'', [strI ''blinkit.com'']),
     (js ''Zepto'', [strI ''zepto.co'']),
     (js ''Swiggy'', [strI ''swiggy.com'', strI ''instamart''])]"

definition CATEGORY_KEYWORDS :: "(jsstring \<times> jsstring list) list" where
  "CATEGORY_KEYWORDS =
    [(js ''electronics'', map js
       [''laptop'', ''phone'', ''mobile'', ''tablet'', ''headphone'', ''earphone'',
        ''earbud'', ''speaker'', ''tv'', ''television'', ''monitor'', ''camera'',
        ''smartwatch'', ''watch'', ''charger'', ''powerbank'', ''ssd'', ''hdd'', ''ram'',
        ''processor'', ''gpu'', ''keyboard'', ''mouse'', ''router'', ''wifi'',
        ''bluetooth'', ''usb'', ''hdmi'', ''adapter'']),
     (js ''fashion'', map js
       [''clothing'', ''apparel'', ''fashion'', ''shirt'', ''tshirt'', ''t-shirt'',
        ''jeans'', ''trouser'', ''trousers'', ''pant'', ''pants'', ''dress'', ''dresses'',
        ''kurta'', ''saree'', ''lehenga'', ''jacket'', ''hoodie'', ''sweater'', ''shoe'',
        ''shoes'', ''sneaker'', ''sneakers'', ''sandal'', ''slipper'', ''bag'',
        ''handbag'', ''wallet'', ''belt'', ''sunglass'', ''sunglasses'', ''women'',
        ''men'', ''kids'', ''flat off'', ''% off on'']),
     (js ''gaming'', map js
       [''game'', ''gaming'', ''ps5'', ''playstation'', ''xbox'', ''nintendo'', ''switch'',
        ''controller'', ''joystick'', ''gaming mouse'', ''gaming keyboard'',
        ''gaming headset'', ''steam'', ''epic games'', ''gpu'', ''graphics card'', ''rtx'',
        ''gtx'']),
     (js ''home-kitchen'', map js
       [''kitchen'', ''cookware'', ''utensil'', ''mixer'', ''grinder'', ''blender'',
        ''microwave'', ''oven'', ''refrigerator'', ''fridge'', ''washing machine'', ''ac'',
        ''air conditioner'', ''fan'', ''cooler'', ''heater'', ''vacuum'', ''iron'',
        ''mattress'', ''pillow'', ''bedsheet'', ''curtain'', ''furniture'', ''sofa'',
        ''chair'', ''table'', ''lamp'', ''light'']),
     (js ''beauty'', map js
       [''beauty'', ''skincare'', ''makeup'', ''cosmetic'', ''lipstick'', ''foundation'',
        ''mascara'', ''perfume'', ''fragrance'', ''shampoo'', ''conditioner'', ''hair'',
        ''moisturizer'', ''serum'', ''sunscreen'', ''face wash'', ''lotion'', ''cream'']),
     (js ''food-groceries'', map js
       [''food'', ''grocery'', ''snack'', ''chocolate'', ''biscuit'', ''chips'', ''drink'',
        ''beverage'', ''coffee'', ''tea'', ''rice'', ''dal'', ''oil'', ''masala'',
        ''spice'', ''fruit'', ''vegetable'', ''meat'', ''chicken'', ''fish'', ''dairy'',
        ''milk'', ''curd'']),
     (js ''mobile-accessories'', map js
       [''mobile cover'', ''phone case'', ''screen protector'', ''tempered glass'',
        ''mobile stand'', ''phone holder'', ''car mount'', ''wireless charger'',
        ''fast charger'', ''data cable'', ''usb cable'', ''type-c'', ''lightning'',
        ''airpods'', ''buds'']),
     (js ''books-stationery'', map js
       [''book'', ''novel'', ''textbook'', ''notebook'', ''diary'', ''pen'', ''pencil'',
        ''marker'', ''highlighter'', ''eraser'', ''sharpener'', ''ruler'', ''calculator'',
        ''backpack'', ''school bag'', ''stationery'', ''art supply'']),
     (js ''travel'', map js
       [''flight'', ''hotel'', ''booking'', ''travel'', ''trip'', ''vacation'',
        ''holiday'', ''luggage'', ''suitcase'', ''trolley'', ''passport'', ''visa'',
        ''ticket'', ''train'', ''bus'', ''cab'', ''uber'', ''ola'', ''makemytrip'',
        ''goibibo'', ''cleartrip''])]"

text \<open>
  The currency patterns. The file of the parser holds the euro, pound and rupee signs as
  the code units U+201A U+00C7 U+00A8, U+00AC U+00A3 and U+201A U+00C7 U+03C0, and the
  patterns are those code units. \<open>amount\<close> is the group \<open>([\d,]+(?:\.\d{2})?)\<close>.
\<close>

definition isDigitOrComma :: "nat \<Rightarrow> bool" where
  "isDigitOrComma c = (isDigit c \<or> c = 0x2C)"

definition spaces :: rx where
  "spaces = Star (Unit isSpace)"

definition amount :: rx where
  "amount = Group 1 (Cat (Plus (Unit isDigitOrComma))
                         (Opt (seq [Unit (lit CHR ''.''), Unit isDigit, Unit isDigit])))"

definition euroSign :: "nat list" where
  "euroSign = [0x201A, 0xC7, 0xA8]"

definition poundSign :: "nat list" where
  "poundSign = [0xAC, 0xA3]"

definition rupeeSign :: "nat list" where
  "rupeeSign = [0x201A, 0xC7, 0x3C0]"

definition CURRENCY_PATTERNS :: "(jsstring \<times> rx list) list" where
  "CURRENCY_PATTERNS =
    [(js ''USD'', [seq [str ''$'', spaces, amount]]),
     (js ''EUR'', [seq [units euroSign, spaces, amount]]),
     (js ''GBP'', [seq [units poundSign, spaces, amount]]),
     (js ''CAD'', [seq [strI ''C$'', spaces, amount], seq [strI ''CAD'', spaces, amount]]),
     (js ''AUD'', [seq [strI ''A$'', spaces, amount], seq [strI ''AUD'', spaces, amount]]),
     (js ''INR'', [seq [units rupeeSign, spaces, amount],
                   seq [strI ''Rs'', Opt (str ''.''), spaces, amount],
                   seq [strI ''INR'', spaces, amount]])]"

text \<open>
  The pair patterns of \<open>extractPrices\<close>, all under the \<open>i\<close> flag. \<open>number n\<close> is the
  group \<open>([\d,]+)\<close>, \<open>gap\<close> is \<open>.*?\<close>. In the fourth pattern the \<open>?\<close> after the second
  rupee sign binds to its last code unit only.
\<close>

definition number :: "nat \<Rightarrow> rx" where
  "number n = Group n (Plus (Unit isDigitOrComma))"

definition gap :: rx where
  "gap = Lazy (Unit isAny)"

definition wasWords :: rx where
  "wasWords = alts [strI ''was'', strI ''from'', strI ''original'', strI ''reg'']"

definition mrpWords :: rx where
  "mrpWords = alts [strI ''mrp'', strI ''was'', strI ''from'', strI ''original'', strI ''reg'']"

definition dealPatterns :: "(rx \<times> jsstring) list" where
  "dealPatterns =
    [(seq [str ''$'', spaces, number 1, gap, wasWords, gap, str ''$'', spaces, number 2],
      js ''USD''),
     (seq [unitsI euroSign, spaces, number 1, gap, wasWords, gap,
           unitsI euroSign, spaces, number 2],
      js ''EUR''),
     (seq [unitsI poundSign, spaces, number 1, gap, wasWords, gap,
           unitsI poundSign, spaces, number 2],
      js ''GBP''),
     (seq [unitsI rupeeSign, spaces, number 1, gap, mrpWords, gap,
           unitsI [0x201A, 0xC7], Opt (unitsI [0x3C0]), spaces, number 2],
      js ''INR''),
     (seq [strI ''Rs'', Opt (str ''.''), spaces, number 1, gap, mrpWords, gap,
           strI ''Rs'', Opt (str ''.''), spaces, number 2],
      js ''INR'')]"

text \<open>The pattern \<open>/(\d{1,2})\s*%\s*(?:off|discount)/i\<close> of \<open>extractDiscount\<close>.\<close>

definition discountPattern :: rx where
  "discountPattern =
     seq [Group 1 (Cat (Unit isDigit) (Opt (Unit isDigit))), spaces, str ''%'', spaces,
          alts [strI ''off'', strI ''discount'']]"

definition SKIP_URL_PATTERNS :: "rx list" where
  "SKIP_URL_PATTERNS =
    [strI ''reddit.com/media'', strI ''i.redd.it'', strI ''preview.redd.it'',
     strI ''v.redd.it'', strI ''reddit.com/gallery'', strI ''imgur.com'',
     Cat (strI ''.jpg'') Eol, Cat (strI ''.jpeg'') Eol, Cat (strI ''.png'') Eol,
     Cat (strI ''.gif'') Eol, Cat (strI ''.webp'') Eol]"

text \<open>
  The patterns of \<open>extractProductUrl\<close>: a markdown link \<open>\[.*?\]\((https?:\/\/[^\s\)]+)\)\<close>,
  its target \<open>\((https?:\/\/[^\s\)]+)\)\<close>, a bare address in a body or a comment
  \<open>(?<!\()https?:\/\/[^\s\)\]<>]+\<close>, a bare address in a title \<open>https?:\/\/[^\s\)\]]+\<close>,
  and the trailing brackets \<open>[\)\]]+$\<close>.
\<close>

definition scheme :: rx where
  "scheme = seq [str ''http'', Opt (str ''s''), str ''://'']"

definition linkTarget :: rx where
  "linkTarget =
     seq [str ''('',
          Group 1 (Cat scheme (Plus (Unit (\<lambda>c. \<not> (isSpace c \<or> lit CHR '')'' c))))),
          str '')'']"

definition markdownLink :: rx where
  "markdownLink = seq [str ''['', gap, str '']'', linkTarget]"

definition plainUrl :: rx where
  "plainUrl =
     seq [NotAfter (lit CHR ''(''), scheme,
          Plus (Unit (\<lambda>c. \<not> (isSpace c \<or> lit CHR '')'' c \<or> lit CHR '']'' c
                               \<or> lit CHR ''<'' c \<or> lit CHR ''>'' c)))]"

definition titleUrl :: rx where
  "titleUrl =
     Cat scheme (Plus (Unit (\<lambda>c. \<not> (isSpace c \<or> lit CHR '')'' c \<or> lit CHR '']'' c))))"

definition trailingBrackets :: rx where
  "trailingBrackets = Cat (Plus (Unit (\<lambda>c. lit CHR '')'' c \<or> lit CHR '']'' c))) Eol"

text \<open>The patterns of \<open>cleanTitle\<close>, in the order of its \<open>replace\<close> calls.\<close>

definition spaces1 :: rx where
  "spaces1 = Plus (Unit isSpace)"

definition fillerPhrase :: rx where
  "fillerPhrase =
     Group 1 (alts [seq [strI ''link'', spaces1, strI ''in'', spaces1, strI ''comments''],
                    seq [strI ''check'', spaces1, strI ''comments''],
                    seq [strI ''see'', spaces1, strI ''below''],
                    seq [strI ''read'', spaces1, strI ''caption'']])"

definition hypePrefix :: rx where
  "hypePrefix =
     seq [Bol,
          Group 1 (alts [strI ''huge'', strI ''mega'', strI ''super'', strI ''bumper'']),
          spaces1,
          Group 2 (alts [strI ''deal'', strI ''sale'', strI ''discount'', strI ''offer'']),
          Opt (strI ''s''),
          Star (Unit (\<lambda>c. isSpace c \<or> lit CHR '':'' c \<or> lit CHR ''-'' c))]"

definition emoji :: rx where
  "emoji = Alt (Point (\<lambda>c. 0x1F300 \<le> c \<and> c \<le> 0x1F9FF))
               (Point (\<lambda>c. 0x2700 \<le> c \<and> c \<le> 0x27BF))"

text \<open>
  The class of the fourth \<open>replace\<close> holds, in the file of the parser, the code units
  listed here.
\<close>

definition symbolUnits :: "nat list" where
  "symbolUnits = [0x201A, 0xF6, 0xB0, 0xF8FF, 0xFC, 0xEE, 0x2022, 0xF8FF, 0xFC, 0xF6, 0xAE,
                  0x201A, 0xF6, 0x2020, 0xD4, 0x220F, 0xE8, 0x201A, 0xFA, 0xAE, 0xF8FF,
                  0xFC, 0xE9, 0xE2]"

definition symbols :: rx where
  "symbols = Unit (\<lambda>c. c \<in> set symbolUnits)"

definition isEdge :: "nat \<Rightarrow> bool" where
  "isEdge c = (lit CHR ''!'' c \<or> isSpace c \<or> lit CHR ''-'' c \<or> lit CHR ''|'' c)"

definition edges :: rx where
  "edges = Alt (Cat Bol (Plus (Unit isEdge))) (Cat (Plus (Unit isEdge)) Eol)"

definition spaceRun :: rx where
  "spaceRun = seq [Unit isSpace, Unit isSpace, Star (Unit isSpace)]"

text \<open>The titles that \<open>parseRedditPost\<close> skips.\<close>

definition skipPatterns :: "rx list" where
  "skipPatterns =
    [strI ''[meta]'', strI ''[question]'', strI ''[discussion]'', strI ''looking for'',
     strI ''suggest me'', strI ''help needed'', strI ''which one'']"

section \<open>Prices and discount\<close>

definition removeCommas :: "jsstring \<Rightarrow> jsstring" where
  "removeCommas s = replaceAll False s (str '','') []"

text \<open>
  \<open>extractPriceWithCurrency\<close>: the two nested loops over \<open>CURRENCY_PATTERNS\<close>. A pattern
  whose first match is not an accepted amount is passed over, and the loops go on.
\<close>

fun tryPatterns :: "jsstring \<Rightarrow> rx list \<Rightarrow> rat option" where
  "tryPatterns text [] = None"
| "tryPatterns text (pattern # patterns) =
     (case match text pattern of
        None \<Rightarrow> tryPatterns text patterns
      | Some mt \<Rightarrow>
          (case parseFloat (removeCommas (group text mt 1)) of
             None \<Rightarrow> tryPatterns text patterns
           | Some price \<Rightarrow>
               if 0 < price \<and> price < 10000000 then Some price
               else tryPatterns text patterns))"

fun tryCurrencies :: "jsstring \<Rightarrow> (jsstring \<times> rx list) list \<Rightarrow> rat option \<times> jsstring" where
  "tryCurrencies text [] = (None, js ''USD'')"
| "tryCurrencies text ((currency, patterns) # others) =
     (case tryPatterns text patterns of
        Some price \<Rightarrow> (Some price, currency)
      | None \<Rightarrow> tryCurrencies text others)"

definition extractPriceWithCurrency :: "jsstring \<Rightarrow> rat option \<times> jsstring" where
  "extractPriceWithCurrency text = tryCurrencies text CURRENCY_PATTERNS"

definition extractPrice :: "jsstring \<Rightarrow> rat option" where
  "extractPrice text = fst (extractPriceWithCurrency text)"

text \<open>
  \<open>extractPrices\<close> returns \<open>(dealPrice, originalPrice, currency)\<close>: the loop over the
  pair patterns, then the single price.
\<close>

fun tryDealPatterns ::
    "jsstring \<Rightarrow> (rx \<times> jsstring) list \<Rightarrow> rat option \<times> rat option \<times> jsstring" where
  "tryDealPatterns text [] =
     (let pc = extractPriceWithCurrency text in (fst pc, None, snd pc))"
| "tryDealPatterns text ((pattern, currency) # others) =
     (case match text pattern of
        None \<Rightarrow> tryDealPatterns text others
      | Some mt \<Rightarrow>
          (case (parseFloat (removeCommas (group text mt 1)),
                 parseFloat (removeCommas (group text mt 2))) of
             (Some price1, Some price2) \<Rightarrow>
               (Some (min price1 price2), Some (max price1 price2), currency)
           | _ \<Rightarrow> tryDealPatterns text others))"

definition extractPrices :: "jsstring \<Rightarrow> rat option \<times> rat option \<times> jsstring" where
  "extractPrices text = tryDealPatterns text dealPatterns"

text \<open>
  \<open>Math.round(((originalPrice - dealPrice) / originalPrice) * 100)\<close>, computed as the
  code computes it. The code holds each price as a double, the one nearest to the
  numeral it was read from; the subtraction, the division and the multiplication each
  round their exact result to a double, and \<open>Math.round\<close> is exact. The result is \<open>None\<close>
  when the value of the code is no finite number (an operand or an intermediate result
  is an infinity, or the division is by zero): such a value fails the range test that
  follows the computation.
\<close>

definition derivedDiscount :: "rat \<Rightarrow> rat \<Rightarrow> int option" where
  "derivedDiscount dealPrice originalPrice =
     (case (toDouble dealPrice, toDouble originalPrice) of
        (Some deal, Some original) \<Rightarrow>
          if original = 0 then None
          else (case toDouble (original - deal) of
                  None \<Rightarrow> None
                | Some difference \<Rightarrow>
                    (case toDouble (difference / original) of
                       None \<Rightarrow> None
                     | Some ratio \<Rightarrow>
                         (case toDouble (ratio * 100) of
                            None \<Rightarrow> None
                          | Some percent \<Rightarrow> Some (mathRound percent))))
      | _ \<Rightarrow> None)"

definition extractDiscount :: "jsstring \<Rightarrow> rat option \<Rightarrow> rat option \<Rightarrow> int option" where
  "extractDiscount text dealPrice originalPrice =
     (let explicit =
            (case match text discountPattern of
               None \<Rightarrow> None
             | Some discountMatch \<Rightarrow>
                 (case parseInt (group text discountMatch 1) of
                    None \<Rightarrow> None
                  | Some discount \<Rightarrow>
                      if 0 < discount \<and> discount \<le> 100 then Some discount else None))
      in case explicit of
           Some discount \<Rightarrow> Some discount
         | None \<Rightarrow>
             if truthy dealPrice \<and> truthy originalPrice \<and> the originalPrice > the dealPrice
             then (case derivedDiscount (the dealPrice) (the originalPrice) of
                     None \<Rightarrow> None
                   | Some discount \<Rightarrow>
                       if 0 < discount \<and> discount \<le> 100 then Some discount else None)
             else None)"

section \<open>Addresses, stores and categories\<close>

text \<open>
  The post as the parser reads it. An optional field is an \<open>option\<close>; \<open>preview\<close> is the list
  \<open>preview.images\<close>, each image with the address of its source and its resolutions.
\<close>

record resolution =
  width :: int
  res_url :: jsstring

record image =
  source_url :: jsstring
  resolutions :: "resolution list"

record RedditPost =
  post_title :: jsstring
  selftext :: jsstring
  is_self :: bool
  url :: "jsstring option"
  permalink :: jsstring
  preview :: "image list option"
  thumbnail :: "jsstring option"
  post_id :: jsstring
  score :: int

definition isProductUrl :: "jsstring \<Rightarrow> bool" where
  "isProductUrl u =
     (if list_ex (\<lambda>pattern. test pattern u) SKIP_URL_PATTERNS then False
      else if includesStr u (js ''reddit.com'') then False
      else True)"

text \<open>The markdown links of a text, each reduced to its target.\<close>

definition markdownUrls :: "jsstring \<Rightarrow> jsstring list" where
  "markdownUrls text =
     concat (map (\<lambda>link. case match link linkTarget of
                            Some urlMatch \<Rightarrow> [group link urlMatch 1]
                          | None \<Rightarrow> [])
                 (matchAll text markdownLink))"

definition allUrls :: "RedditPost \<Rightarrow> jsstring list \<Rightarrow> jsstring list" where
  "allUrls post comments =
     markdownUrls (selftext post)
     @ matchAll (selftext post) plainUrl
     @ (if \<not> is_self post \<and> truthyStr (url post) then [the (url post)] else [])
     @ matchAll (post_title post) titleUrl
     @ concat (map (\<lambda>comment. markdownUrls comment @ matchAll comment plainUrl) comments)"

definition cleanTrailing :: "jsstring \<Rightarrow> jsstring" where
  "cleanTrailing u = replaceFirst u trailingBrackets []"

text \<open>The inner loop of the first pass: does one of the stores know the address?\<close>

fun knownStore :: "rx list list \<Rightarrow> jsstring \<Rightarrow> bool" where
  "knownStore [] u = False"
| "knownStore (patterns # others) u =
     (if list_ex (\<lambda>pattern. test pattern u) patterns then True else knownStore others u)"

fun firstPass :: "jsstring list \<Rightarrow> jsstring option" where
  "firstPass [] = None"
| "firstPass (u # us) =
     (if \<not> isProductUrl u then firstPass us
      else if knownStore (map snd STORE_PATTERNS) u then Some (cleanTrailing u)
      else firstPass us)"

fun secondPass :: "jsstring list \<Rightarrow> jsstring option" where
  "secondPass [] = None"
| "secondPass (u # us) =
     (if isProductUrl u then Some (cleanTrailing u) else secondPass us)"

definition extractProductUrl :: "RedditPost \<Rightarrow> jsstring list \<Rightarrow> jsstring" where
  "extractProductUrl post comments =
     (case firstPass (allUrls post comments) of
        Some u \<Rightarrow> u
      | None \<Rightarrow>
          (case secondPass (allUrls post comments) of
             Some u \<Rightarrow> u
           | None \<Rightarrow> js ''https://reddit.com'' @ permalink post))"

fun detectStoreIn :: "(jsstring \<times> rx list) list \<Rightarrow> jsstring \<Rightarrow> jsstring option" where
  "detectStoreIn [] u = None"
| "detectStoreIn ((store, patterns) # others) u =
     (if list_ex (\<lambda>pattern. test pattern u) patterns then Some store
      else detectStoreIn others u)"

definition detectStore :: "jsstring \<Rightarrow> jsstring option" where
  "detectStore u = detectStoreIn STORE_PATTERNS u"

text \<open>
  \<open>detectCategory\<close>: the score of each category, then the first category with the
  highest score above zero.
\<close>

definition keywordScore :: "jsstring \<Rightarrow> jsstring list \<Rightarrow> nat" where
  "keywordScore lowerText keywords =
     foldl (\<lambda>total keyword.
              if includesStr lowerText keyword
              then total + (if length keyword > 5 then 2 else 1) else total)
           0 keywords"

definition detectCategory :: "jsstring \<Rightarrow> jsstring" where
  "detectCategory text =
     (let lowerText = toLowerCase text;
          scores = map (\<lambda>(category, keywords). (category, keywordScore lowerText keywords))
                       CATEGORY_KEYWORDS;
          best = foldl (\<lambda>(bestCategory, bestScore) (category, score).
                          if score > bestScore then (category, score)
                          else (bestCategory, bestScore))
                       (js ''other'', 0) scores
      in if snd best > 0 then fst best else js ''other'')"

section \<open>Title\<close>

definition cleaned :: "jsstring \<Rightarrow> jsstring" where
  "cleaned title =
     trim (replaceAll False
            (replaceAll False
              (replaceAll False
                (replaceAll True
                  (replaceAll False
                    (replaceAll False title fillerPhrase [])
                    hypePrefix [])
                  emoji [])
                symbols [])
              edges [])
            spaceRun (js '' ''))"

definition cleanTitle :: "caseTable \<Rightarrow> jsstring \<Rightarrow> jsstring" where
  "cleanTitle up title =
     (if length (cleaned title) < 5 then trim title
      else toUpperCase up (take 1 (cleaned title)) @ drop 1 (cleaned title))"

section \<open>Image\<close>

text \<open>
  What lies outside the parser is a parameter: \<open>upperCase\<close> is the upper-case table of
  the runtime (see \<open>toUpperCase\<close>); \<open>fetch\<close> is the request for a page, which
  fails (a network error, or the abort after three seconds) or returns a response;
  reading the body of a response fails or returns the markup; \<open>ogImage\<close> and
  \<open>twitterImage\<close> are the two look-ups in the parsed markup, the \<open>content\<close> attribute of
  the first \<open>meta\<close> element with the property \<open>og:image\<close> or the name \<open>twitter:image\<close>.
\<close>

datatype 'a outcome = Threw | Returned 'a

record response =
  ok :: bool
  body :: "jsstring outcome"

record world =
  upperCase :: caseTable
  fetch :: "jsstring \<Rightarrow> response outcome"
  ogImage :: "jsstring \<Rightarrow> jsstring option outcome"
  twitterImage :: "jsstring \<Rightarrow> jsstring option outcome"

text \<open>The body of the \<open>try\<close> block of \<open>fetchOgImage\<close>; an exception leaves it at once.\<close>

definition fetchOgImageTry :: "world \<Rightarrow> jsstring \<Rightarrow> jsstring option outcome" where
  "fetchOgImageTry w u =
     (case fetch w u of
        Threw \<Rightarrow> Threw
      | Returned response \<Rightarrow>
          if \<not> ok response then Returned None
          else (case body response of
                  Threw \<Rightarrow> Threw
                | Returned markup \<Rightarrow>
                    (case ogImage w markup of
                       Threw \<Rightarrow> Threw
                     | Returned imageUrl \<Rightarrow>
                         if \<not> truthyStr imageUrl
                         then (case twitterImage w markup of
                                 Threw \<Rightarrow> Threw
                               | Returned imageUrl' \<Rightarrow>
                                   Returned (if truthyStr imageUrl' then imageUrl' else None))
                         else Returned imageUrl)))"

text \<open>\<open>fetchOgImage\<close>: the \<open>catch\<close> turns every exception of the block into \<open>null\<close>.\<close>

definition fetchOgImage :: "world \<Rightarrow> jsstring \<Rightarrow> jsstring option" where
  "fetchOgImage w u =
     (case fetchOgImageTry w u of Threw \<Rightarrow> None | Returned imageUrl \<Rightarrow> imageUrl)"

definition unescapeAmp :: "jsstring \<Rightarrow> jsstring" where
  "unescapeAmp s = replaceAll False s (str ''&amp;'') (js ''&'')"

text \<open>The image that the post itself carries: its preview, or else its thumbnail.\<close>

definition postImage :: "RedditPost \<Rightarrow> jsstring option" where
  "postImage post =
     (let imageUrl =
            (case preview post of
               Some (img # _) \<Rightarrow>
                 (case find (\<lambda>r. width r \<ge> 300 \<and> width r \<le> 800) (resolutions img) of
                    Some resolution \<Rightarrow> Some (unescapeAmp (res_url resolution))
                  | None \<Rightarrow> Some (unescapeAmp (source_url img)))
             | _ \<Rightarrow> None)
      in if \<not> truthyStr imageUrl \<and> truthyStr (thumbnail post)
            \<and> startsWith (the (thumbnail post)) (js ''http'')
         then thumbnail post else imageUrl)"

definition extractImageUrl :: "world \<Rightarrow> RedditPost \<Rightarrow> jsstring \<Rightarrow> jsstring option" where
  "extractImageUrl w post productUrl =
     (let imageUrl = postImage post
      in if (\<not> truthyStr imageUrl
             \<or> includesStr (the imageUrl) (js ''external-preview'')
             \<or> includesStr (the imageUrl) (js ''redditmedia''))
            \<and> isProductUrl productUrl
         then (let ogImage = fetchOgImage w productUrl
               in if truthyStr ogImage then ogImage else imageUrl)
         else imageUrl)"

section \<open>The post parser\<close>

record ParsedDeal =
  title :: jsstring
  description :: "jsstring option"
  originalPrice :: "rat option"
  dealPrice :: "rat option"
  discountPercent :: "int option"
  currency :: jsstring
  productUrl :: jsstring
  imageUrl :: "jsstring option"
  store :: "jsstring option"
  categorySlug :: jsstring
  redditPostId :: jsstring
  redditScore :: int

definition fullText :: "RedditPost \<Rightarrow> jsstring" where
  "fullText post = post_title post @ js '' '' @ selftext post"

definition skipped :: "RedditPost \<Rightarrow> bool" where
  "skipped post = list_ex (\<lambda>pattern. test pattern (post_title post)) skipPatterns"

definition parseRedditPost :: "world \<Rightarrow> RedditPost \<Rightarrow> jsstring list \<Rightarrow> ParsedDeal option" where
  "parseRedditPost w post comments =
     (if skipped post then None
      else
        (let productUrl = extractProductUrl post comments;
             prices = extractPrices (fullText post);
             dealPrice = fst prices;
             originalPrice = fst (snd prices);
             currency = snd (snd prices);
             discountPercent = extractDiscount (fullText post) dealPrice originalPrice;
             store = detectStore productUrl;
             categorySlug = detectCategory (fullText post);
             imageUrl = extractImageUrl w post productUrl
         in if \<not> truthy dealPrice \<and> \<not> truthy discountPercent
               \<and> includesStr productUrl (js ''reddit.com'')
            then None
            else Some \<lparr>title = cleanTitle (upperCase w) (post_title post),
                       description = (if selftext post \<noteq> [] then Some (slice (selftext post) 0 2000)
                                      else None),
                       originalPrice = originalPrice,
                       dealPrice = dealPrice,
                       discountPercent = discountPercent,
                       currency = currency,
                       productUrl = productUrl,
                       imageUrl = imageUrl,
                       store = store,
                       categorySlug = categorySlug,
                       redditPostId = post_id post,
                       redditScore = score post\<rparr>))"

section \<open>Terms of the statements\<close>

text \<open>\<open>inside s x\<close>: the state \<open>x\<close> is a position in the string \<open>s\<close>.\<close>

definition inside :: "jsstring \<Rightarrow> mstate \<Rightarrow> bool" where
  "inside s x = (pos x \<le> length s \<and> rest x = drop (pos x) s)"

text \<open>
  The amount that \<open>extractPriceWithCurrency\<close> accepts from one pattern: the first match,
  read as a number, when it is above 0 and below 10,000,000.
\<close>

definition accepted :: "jsstring \<Rightarrow> rx \<Rightarrow> rat option" where
  "accepted text pattern =
     (case match text pattern of
        None \<Rightarrow> None
      | Some mt \<Rightarrow>
          (case parseFloat (removeCommas (group text mt 1)) of
             None \<Rightarrow> None
           | Some price \<Rightarrow> if 0 < price \<and> price < 10000000 then Some price else None))"

text \<open>
  The pair of numbers that \<open>extractPrices\<close> reads from one pair pattern, in the order of
  the text, and the first pattern of a table that gives such a pair.
\<close>

definition pairAt :: "jsstring \<Rightarrow> rx \<times> jsstring \<Rightarrow> (rat \<times> rat \<times> jsstring) option" where
  "pairAt text e =
     (case match text (fst e) of
        None \<Rightarrow> None
      | Some mt \<Rightarrow>
          (case (parseFloat (removeCommas (group text mt 1)),
                 parseFloat (removeCommas (group text mt 2))) of
             (Some price1, Some price2) \<Rightarrow> Some (price1, price2, snd e)
           | _ \<Rightarrow> None))"

definition firstPairIn :: "jsstring \<Rightarrow> (rx \<times> jsstring) list \<Rightarrow> (rat \<times> rat \<times> jsstring) option" where
  "firstPairIn text tbl =
     (case find (\<lambda>e. pairAt text e \<noteq> None) tbl of
        None \<Rightarrow> None
      | Some e \<Rightarrow> pairAt text e)"

definition firstPair :: "jsstring \<Rightarrow> (rat \<times> rat \<times> jsstring) option" where
  "firstPair text = firstPairIn text dealPatterns"

text \<open>The number of the first phrase "N% off" or "N% discount" of a text.\<close>

definition explicitDiscount :: "jsstring \<Rightarrow> int option" where
  "explicitDiscount text =
     (case match text discountPattern of
        None \<Rightarrow> None
      | Some discountMatch \<Rightarrow> parseInt (group text discountMatch 1))"

text \<open>An address matches a pattern of a known store.\<close>

definition isMerchant :: "jsstring \<Rightarrow> bool" where
  "isMerchant u = list_ex (\<lambda>e. list_ex (\<lambda>pattern. test pattern u) (snd e)) STORE_PATTERNS"

text \<open>The permalink of the post, fully qualified.\<close>

definition fallback :: "RedditPost \<Rightarrow> jsstring" where
  "fallback post = js ''https://reddit.com'' @ permalink post"

text \<open>
  The upper-case table of the examples: the rows of the Unicode table for Latin-1, every
  other code point left as it is.
\<close>

definition latin1 :: caseTable where
  "latin1 c =
     (if c = 0xB5 then (0x39C, [])
      else if c = 0xDF then (0x53, [0x53])
      else if c = 0xFF then (0x178, [])
      else if 0xE0 \<le> c \<and> c \<le> 0xFE \<and> c \<noteq> 0xF7 then (c - 0x20, [])
      else (c, []))"

text \<open>A world in which every request fails, with that table.\<close>

definition offline :: world where
  "offline = \<lparr>upperCase = latin1, fetch = (\<lambda>u. Threw), ogImage = (\<lambda>markup. Returned None),
              twitterImage = (\<lambda>markup. Returned None)\<rparr>"

text \<open>The posts of the examples.\<close>

definition sonyTitle :: jsstring where
  "sonyTitle = [0xD83D, 0xDD25]
     @ js '' HUGE DEAL: Sony Headphones $199 (was $299) link in comments''"

definition sonyUrl :: jsstring where
  "sonyUrl = js ''http://amazon.com/dp/xyz''"

definition sonyPost :: RedditPost where
  "sonyPost = \<lparr>post_title = sonyTitle, selftext = [], is_self = False, url = Some sonyUrl,
                permalink = js ''/r/deals/comments/abc/'', preview = None, thumbnail = None,
                post_id = js ''abc'', score = 50\<rparr>"

definition freePost :: RedditPost where
  "freePost = \<lparr>post_title = js ''Game $0 was $50'', selftext = [], is_self = True, url = None,
                permalink = js ''/r/deals/comments/free/'', preview = None, thumbnail = None,
                post_id = js ''free'', score = 1\<rparr>"

definition blankPost :: RedditPost where
  "blankPost = \<lparr>post_title = [], selftext = js ''$5'', is_self = True, url = None,
                 permalink = js ''/r/deals/comments/blank/'', preview = None, thumbnail = None,
                 post_id = js ''blank'', score = 1\<rparr>"

definition previewPost :: RedditPost where
  "previewPost = \<lparr>post_title = js ''Lamp'', selftext = [], is_self = False, url = Some sonyUrl,
                   permalink = js ''/r/deals/comments/lamp/'',
                   preview = Some [\<lparr>source_url = js ''https://external-preview.redd.it/a.jpg'',
                                    resolutions = []\<rparr>],
                   thumbnail = None, post_id = js ''lamp'', score = 1\<rparr>"

definition linksBody :: jsstring where
  "linksBody = js ''check this out http://example.com/x then http://amazon.in/dp/123''"

definition linksPost :: RedditPost where
  "linksPost = \<lparr>post_title = js ''Deal'', selftext = linksBody, is_self = True, url = None,
                 permalink = js ''/r/deals/comments/links/'', preview = None, thumbnail = None,
                 post_id = js ''links'', score = 1\<rparr>"

definition discussionPost :: RedditPost where
  "discussionPost = \<lparr>post_title = js ''[Discussion] which laptop should I buy'',
                      selftext = js ''$500 at http://amazon.com/dp/xyz'', is_self = True,
                      url = None, permalink = js ''/r/deals/comments/disc/'', preview = None,
                      thumbnail = None, post_id = js ''disc'', score = 1\<rparr>"

section \<open>The matcher stays inside its input\<close>

lemma inside_step:
  assumes "inside s (St i pv (c # t) cs)"
  shows "inside s (St (Suc i) pv' t cs')"
proof -
  from assms have a: "i \<le> length s" and b: "c # t = drop i s" by (simp_all add: inside_def)
  from b have "i < length s" using a by (cases "i = length s") auto
  moreover from b have "t = drop (Suc i) s" by (metis drop_Suc list.sel(3) tl_drop)
  ultimately show ?thesis by (simp add: inside_def)
qed

lemma inside_caps: "inside s (St i pv rs cs) \<Longrightarrow> inside s (St i pv' rs cs')"
  by (simp add: inside_def)

lemma inside_capture: "inside s y \<Longrightarrow> inside s (capture n i y)"
  by (cases y) (simp add: inside_def)

lemma pos_capture: "pos (capture n i y) = pos y"
  by (cases y) simp

lemma m_sound:
  "m r x k = Some z \<Longrightarrow> inside s x \<Longrightarrow> \<exists>y. k y = Some z \<and> inside s y \<and> pos x \<le> pos y"
proof (induction r x k arbitrary: z rule: m.induct)
  case (1 i pv rs cs k)
  then show ?case by (auto simp: m.simps)
next
  case (2 p i pv cs k)
  then show ?case by (auto simp: m.simps)
next
  case (3 p i pv c t cs k)
  then show ?case using inside_step[of s i pv c t cs "Some c" cs] by (auto simp: m.simps split: if_splits)
next
  case (4 p i pv cs k)
  then show ?case by (auto simp: m.simps)
next
  case (5 p i pv c cs k)
  then show ?case using inside_step[of s i pv c "[]" cs "Some c" cs] by (auto simp: m.simps split: if_splits)
next
  case (6 p i pv c d t cs k)
  have s1: "inside s (St (Suc i) (Some c) (d # t) cs)"
    using 6(2) by (rule inside_step)
  then have s2: "inside s (St (Suc (Suc i)) (Some d) t cs)"
    by (rule inside_step)
  from 6(1) s1 s2 show ?case by (auto simp: m.simps split: if_splits)
next
  case (7 a b i pv rs cs k)
  from "7.prems"(1) have "m a (St i pv rs cs) (\<lambda>y. m b y k) = Some z" by (simp add: m.simps)
  from "7.IH"(2)[OF this "7.prems"(2)]
  obtain y where y: "m b y k = Some z" "inside s y" "i \<le> pos y" by auto
  from "7.IH"(1)[OF y(1) y(2)]
  obtain y' where "k y' = Some z" "inside s y'" "pos y \<le> pos y'" by auto
  with y(3) show ?case by auto
next
  case (8 a b i pv rs cs k)
  show ?case
  proof (cases "m a (St i pv rs cs) k")
    case None
    with "8.prems"(1) have "m b (St i pv rs cs) k = Some z" by (simp add: m.simps)
    from "8.IH"(2)[OF None this "8.prems"(2)] show ?thesis .
  next
    case (Some z')
    with "8.prems"(1) have "m a (St i pv rs cs) k = Some z" by (simp add: m.simps)
    from "8.IH"(1)[OF this "8.prems"(2)] show ?thesis .
  qed
next
  case (9 a i pv rs cs k)
  let ?K = "\<lambda>y. if shorter y rs then m (Star a) y k else None"
  show ?case
  proof (cases "m a (St i pv rs cs) ?K")
    case None
    with "9.prems"(1) have "k (St i pv rs cs) = Some z" by (simp add: m.simps)
    with "9.prems"(2) show ?thesis by auto
  next
    case (Some z')
    with "9.prems"(1) have "m a (St i pv rs cs) ?K = Some z" by (simp add: m.simps)
    from "9.IH"(2)[OF this "9.prems"(2)]
    obtain y where y: "?K y = Some z" "inside s y" "i \<le> pos y" by auto
    from y(1) have sh: "shorter y rs" and my: "m (Star a) y k = Some z"
      by (auto split: if_splits)
    from "9.IH"(1)[OF sh my y(2)] y(3) show ?thesis by auto
  qed
next
  case (10 a i pv rs cs k)
  let ?K = "\<lambda>y. if shorter y rs then m (Lazy a) y k else None"
  show ?case
  proof (cases "k (St i pv rs cs)")
    case None
    with "10.prems"(1) have "m a (St i pv rs cs) ?K = Some z" by (simp add: m.simps)
    from "10.IH"(2)[OF None this "10.prems"(2)]
    obtain y where y: "?K y = Some z" "inside s y" "i \<le> pos y" by auto
    from y(1) have sh: "shorter y rs" and my: "m (Lazy a) y k = Some z"
      by (auto split: if_splits)
    from "10.IH"(1)[OF None sh my y(2)] y(3) show ?thesis by auto
  next
    case (Some z')
    with "10.prems"(1) have "k (St i pv rs cs) = Some z" by (simp add: m.simps)
    with "10.prems"(2) show ?thesis by auto
  qed
next
  case (11 a i pv rs cs k)
  let ?K = "\<lambda>y. if shorter y rs then k y else None"
  show ?case
  proof (cases "m a (St i pv rs cs) ?K")
    case None
    with "11.prems"(1) have "k (St i pv rs cs) = Some z" by (simp add: m.simps)
    with "11.prems"(2) show ?thesis by auto
  next
    case (Some z')
    with "11.prems"(1) have "m a (St i pv rs cs) ?K = Some z" by (simp add: m.simps)
    from "11.IH"[OF this "11.prems"(2)]
    obtain y where y: "?K y = Some z" "inside s y" "i \<le> pos y" by auto
    then show ?thesis by (auto split: if_splits)
  qed
next
  case (12 n a i pv rs cs k)
  from "12.prems"(1) have "m a (St i pv rs cs) (\<lambda>y. k (capture n i y)) = Some z"
    by (simp add: m.simps)
  from "12.IH"[OF this "12.prems"(2)]
  obtain y where "k (capture n i y) = Some z" "inside s y" "i \<le> pos y" by auto
  then show ?case
    using inside_capture[of s y n i] pos_capture[of n i y]
    by (intro exI[of _ "capture n i y"]) auto
next
  case (13 i pv rs cs k)
  then show ?case by (auto simp: m.simps split: if_splits)
next
  case (14 i pv rs cs k)
  then show ?case by (auto simp: m.simps split: if_splits)
next
  case (15 p i pv rs cs k)
  then show ?case by (auto simp: m.simps split: if_splits option.splits)
qed

lemma m_Eol_end:
  assumes "m (Cat a Eol) x Some = Some y" "inside s x"
  shows "pos y = length s \<and> pos x \<le> pos y"
proof -
  obtain i pv rs cs where x: "x = St i pv rs cs" by (cases x)
  from assms(1) have "m a x (\<lambda>y. m Eol y Some) = Some y" by (simp add: x m.simps)
  from m_sound[OF this assms(2)]
  obtain y' where y': "m Eol y' Some = Some y" "inside s y'" "pos x \<le> pos y'" by auto
  obtain j pv' rs' cs' where yy: "y' = St j pv' rs' cs'" by (cases y')
  from y'(1) have "rs' = []" "y = y'" by (auto simp: yy m.simps split: if_splits)
  with y'(2,3) show ?thesis by (auto simp: yy inside_def)
qed

lemma inside_advance:
  assumes "inside s (St i pv (c # t) cs)"
  shows "inside s (advance u i c t) \<and> i < pos (advance u i c t)"
proof (cases t)
  case Nil
  with inside_step[OF assms, of "Some c" "[]"] show ?thesis by simp
next
  case (Cons d t')
  have s1: "inside s (St (Suc i) (Some c) (d # t') [])"
    using assms unfolding Cons by (rule inside_step)
  then have s2: "inside s (St (Suc (Suc i)) (Some d) t' [])" by (rule inside_step)
  from s1 s2 show ?thesis by (simp add: Cons)
qed

lemma search_sound:
  "search u r x = Some (j, y) \<Longrightarrow> inside s x \<Longrightarrow>
     pos x \<le> j \<and> (\<exists>pv rs. inside s (St j pv rs []) \<and> m r (St j pv rs []) Some = Some y)"
proof (induction u r x rule: search.induct)
  case (1 u r i pv cs)
  then show ?case
    using inside_caps[of s i pv "[]" cs pv "[]"]
    by (auto simp: search.simps split: option.splits)
next
  case (2 u r i pv c t cs)
  show ?case
  proof (cases "m r (St i pv (c # t) []) Some")
    case None
    with "2.prems"(1) have "search u r (advance u i c t) = Some (j, y)"
      by (simp add: search.simps)
    from "2.IH"[OF None this] inside_advance[OF "2.prems"(2), of u] show ?thesis by auto
  next
    case (Some y')
    with "2.prems"(1) have "j = i" "y' = y" by (simp_all add: search.simps)
    with Some inside_caps[OF "2.prems"(2), of pv "[]"] show ?thesis by auto
  qed
qed

lemma inside_start: "inside s (start s)"
  by (simp add: inside_def start_def)

lemma match_bounds:
  assumes "match s r = Some (j, e, c)"
  shows "j \<le> e \<and> e \<le> length s"
proof -
  from assms obtain y where sy: "search False r (start s) = Some (j, y)" and e: "e = pos y"
    by (auto simp: match_def split: option.splits)
  from search_sound[OF sy inside_start]
  obtain pv rs where x: "inside s (St j pv rs [])" "m r (St j pv rs []) Some = Some y" by auto
  from m_sound[OF x(2) x(1)] show ?thesis by (auto simp: e inside_def)
qed

lemma match_Eol:
  assumes "match s (Cat a Eol) = Some (j, e, c)"
  shows "j \<le> e \<and> e = length s"
proof -
  from assms obtain y where sy: "search False (Cat a Eol) (start s) = Some (j, y)" and e: "e = pos y"
    by (auto simp: match_def split: option.splits)
  from search_sound[OF sy inside_start]
  obtain pv rs where x: "inside s (St j pv rs [])" "m (Cat a Eol) (St j pv rs []) Some = Some y" by auto
  from m_Eol_end[OF x(2) x(1)] show ?thesis by (auto simp: e)
qed

lemma cleanTrailing_prefix: "prefix (cleanTrailing u) u"
proof (cases "match u trailingBrackets")
  case None
  then show ?thesis by (simp add: cleanTrailing_def replaceFirst_def)
next
  case (Some mt)
  obtain j e c where mt: "mt = (j, e, c)" by (cases mt)
  from Some have "e = length u"
    using match_Eol[of u _ j e c] by (simp add: mt trailingBrackets_def)
  with Some show ?thesis
    by (simp add: cleanTrailing_def replaceFirst_def mt take_is_prefix)
qed

lemma includesStr_sublist: "includesStr s t \<longleftrightarrow> sublist t s"
  by (induction s) (auto simp: sublist_Cons_right)

lemma includesStr_prefix: "prefix a b \<Longrightarrow> includesStr a t \<Longrightarrow> includesStr b t"
  unfolding includesStr_sublist
  by (meson prefix_imp_sublist sublist_order.order_trans)

lemma product_no_reddit: "isProductUrl u \<Longrightarrow> \<not> includesStr (cleanTrailing u) (js ''reddit.com'')"
  using includesStr_prefix[OF cleanTrailing_prefix]
  by (auto simp: isProductUrl_def split: if_splits)

lemma fallback_reddit: "includesStr (js ''https://reddit.com'' @ p) (js ''reddit.com'')"
proof -
  have "js ''https://reddit.com'' @ p = js ''https://'' @ js ''reddit.com'' @ p"
    by (simp add: js_def)
  then show ?thesis
    unfolding includesStr_sublist sublist_def by blast
qed

lemma caps_capture: "fst ` set (caps (capture n i y)) = insert n (fst ` set (caps y))"
  by (cases y) simp

lemma m_caps:
  "m r x k = Some z \<Longrightarrow>
     \<exists>y. k y = Some z \<and> (\<forall>g. g \<in> fst ` set (caps x) \<or> sure r g \<longrightarrow> g \<in> fst ` set (caps y))"
proof (induction r x k arbitrary: z rule: m.induct)
  case (1 i pv rs cs k)
  then have "k (St i pv rs cs) = Some z" by (simp add: m.simps)
  then show ?case by (intro exI[of _ "St i pv rs cs"]) simp
next
  case (2 p i pv cs k)
  then show ?case by (auto simp: m.simps)
next
  case (3 p i pv c t cs k)
  then have "k (St (Suc i) (Some c) t cs) = Some z" by (simp add: m.simps split: if_splits)
  then show ?case by (intro exI[of _ "St (Suc i) (Some c) t cs"]) simp
next
  case (4 p i pv cs k)
  then show ?case by (auto simp: m.simps)
next
  case (5 p i pv c cs k)
  then have "k (St (Suc i) (Some c) [] cs) = Some z" by (simp add: m.simps split: if_splits)
  then show ?case by (intro exI[of _ "St (Suc i) (Some c) [] cs"]) simp
next
  case (6 p i pv c d t cs k)
  then have "k (St (i + 2) (Some d) t cs) = Some z \<or> k (St (Suc i) (Some c) (d # t) cs) = Some z"
    by (simp add: m.simps split: if_splits)
  then show ?case
  proof
    assume "k (St (i + 2) (Some d) t cs) = Some z"
    then show ?thesis by (intro exI[of _ "St (i + 2) (Some d) t cs"]) simp
  next
    assume "k (St (Suc i) (Some c) (d # t) cs) = Some z"
    then show ?thesis by (intro exI[of _ "St (Suc i) (Some c) (d # t) cs"]) simp
  qed
next
  case (7 a b i pv rs cs k)
  from "7.prems" have "m a (St i pv rs cs) (\<lambda>y. m b y k) = Some z" by (simp add: m.simps)
  from "7.IH"(2)[OF this]
  obtain y where y: "m b y k = Some z"
    "\<forall>g. g \<in> fst ` set cs \<or> sure a g \<longrightarrow> g \<in> fst ` set (caps y)" by auto
  from "7.IH"(1)[OF y(1)]
  obtain y' where "k y' = Some z"
    "\<forall>g. g \<in> fst ` set (caps y) \<or> sure b g \<longrightarrow> g \<in> fst ` set (caps y')" by auto
  with y(2) show ?case by (intro exI[of _ y']) auto
next
  case (8 a b i pv rs cs k)
  show ?case
  proof (cases "m a (St i pv rs cs) k")
    case None
    with "8.prems" have "m b (St i pv rs cs) k = Some z" by (simp add: m.simps)
    from "8.IH"(2)[OF None this] show ?thesis by auto
  next
    case (Some z')
    with "8.prems" have "m a (St i pv rs cs) k = Some z" by (simp add: m.simps)
    from "8.IH"(1)[OF this] show ?thesis by auto
  qed
next
  case (9 a i pv rs cs k)
  let ?K = "\<lambda>y. if shorter y rs then m (Star a) y k else None"
  show ?case
  proof (cases "m a (St i pv rs cs) ?K")
    case None
    with "9.prems" have "k (St i pv rs cs) = Some z" by (simp add: m.simps)
    then show ?thesis by (intro exI[of _ "St i pv rs cs"]) auto
  next
    case (Some z')
    with "9.prems" have "m a (St i pv rs cs) ?K = Some z" by (simp add: m.simps)
    from "9.IH"(2)[OF this]
    obtain y where y: "?K y = Some z"
      "\<forall>g. g \<in> fst ` set cs \<or> sure a g \<longrightarrow> g \<in> fst ` set (caps y)" by auto
    from y(1) have sh: "shorter y rs" and my: "m (Star a) y k = Some z"
      by (auto split: if_splits)
    from "9.IH"(1)[OF sh my]
    obtain y' where "k y' = Some z"
      "\<forall>g. g \<in> fst ` set (caps y) \<or> sure (Star a) g \<longrightarrow> g \<in> fst ` set (caps y')" by auto
    with y(2) show ?thesis by (intro exI[of _ y']) auto
  qed
next
  case (10 a i pv rs cs k)
  let ?K = "\<lambda>y. if shorter y rs then m (Lazy a) y k else None"
  show ?case
  proof (cases "k (St i pv rs cs)")
    case None
    with "10.prems" have "m a (St i pv rs cs) ?K = Some z" by (simp add: m.simps)
    from "10.IH"(2)[OF None this]
    obtain y where y: "?K y = Some z"
      "\<forall>g. g \<in> fst ` set cs \<or> sure a g \<longrightarrow> g \<in> fst ` set (caps y)" by auto
    from y(1) have sh: "shorter y rs" and my: "m (Lazy a) y k = Some z"
      by (auto split: if_splits)
    from "10.IH"(1)[OF None sh my]
    obtain y' where "k y' = Some z"
      "\<forall>g. g \<in> fst ` set (caps y) \<or> sure (Lazy a) g \<longrightarrow> g \<in> fst ` set (caps y')" by auto
    with y(2) show ?thesis by (intro exI[of _ y']) auto
  next
    case (Some z')
    with "10.prems" have "k (St i pv rs cs) = Some z" by (simp add: m.simps)
    then show ?thesis by (intro exI[of _ "St i pv rs cs"]) auto
  qed
next
  case (11 a i pv rs cs k)
  let ?K = "\<lambda>y. if shorter y rs then k y else None"
  show ?case
  proof (cases "m a (St i pv rs cs) ?K")
    case None
    with "11.prems" have "k (St i pv rs cs) = Some z" by (simp add: m.simps)
    then show ?thesis by (intro exI[of _ "St i pv rs cs"]) auto
  next
    case (Some z')
    with "11.prems" have "m a (St i pv rs cs) ?K = Some z" by (simp add: m.simps)
    from "11.IH"[OF this]
    obtain y where y: "?K y = Some z"
      "\<forall>g. g \<in> fst ` set cs \<or> sure a g \<longrightarrow> g \<in> fst ` set (caps y)" by auto
    from y(1) have "k y = Some z" by (auto split: if_splits)
    with y(2) show ?thesis by (intro exI[of _ y]) auto
  qed
next
  case (12 n a i pv rs cs k)
  from "12.prems" have "m a (St i pv rs cs) (\<lambda>y. k (capture n i y)) = Some z"
    by (simp add: m.simps)
  from "12.IH"[OF this]
  obtain y where "k (capture n i y) = Some z"
    "\<forall>g. g \<in> fst ` set cs \<or> sure a g \<longrightarrow> g \<in> fst ` set (caps y)" by auto
  then show ?case
    by (intro exI[of _ "capture n i y"]) (auto simp: caps_capture)
next
  case (13 i pv rs cs k)
  then have "k (St i pv rs cs) = Some z" by (simp add: m.simps split: if_splits)
  then show ?case by (intro exI[of _ "St i pv rs cs"]) simp
next
  case (14 i pv rs cs k)
  then have "k (St i pv rs cs) = Some z" by (simp add: m.simps split: if_splits)
  then show ?case by (intro exI[of _ "St i pv rs cs"]) simp
next
  case (15 p i pv rs cs k)
  then have "k (St i pv rs cs) = Some z"
    by (simp add: m.simps split: if_splits option.splits)
  then show ?case by (intro exI[of _ "St i pv rs cs"]) simp
qed

lemma group_defined:
  assumes "match s r = Some mt" "sure r g"
  shows "map_of (snd (snd mt)) g \<noteq> None"
proof -
  from assms(1) obtain j y where sy: "search False r (start s) = Some (j, y)"
    and mt: "mt = (j, pos y, caps y)"
    by (auto simp: match_def split: option.splits)
  from search_sound[OF sy inside_start]
  obtain pv rs where "m r (St j pv rs []) Some = Some y" by auto
  from m_caps[OF this] assms(2) have "g \<in> fst ` set (caps y)" by auto
  then show ?thesis by (simp add: mt map_of_eq_None_iff)
qed

lemma groups_of_the_parser:
  "list_all (\<lambda>e. list_all (\<lambda>p. sure p 1) (snd e)) CURRENCY_PATTERNS
   \<and> list_all (\<lambda>e. sure (fst e) 1 \<and> sure (fst e) 2) dealPatterns
   \<and> sure discountPattern 1 \<and> sure linkTarget 1"
  by code_simp

section \<open>The nearest double\<close>

lemma pow2_powi: "pow2 e = 2 powi e"
  by (simp add: pow2_def power_int_def inverse_eq_divide power_one_over)

lemma pow2_pos: "0 < pow2 e"
  by (simp add: pow2_powi)

lemma pow2_add: "pow2 (a + b) = pow2 a * pow2 b"
  by (simp add: pow2_powi power_int_add)

lemma pow2_mono: "a \<le> b \<Longrightarrow> pow2 a \<le> pow2 b"
  by (simp add: pow2_powi power_int_increasing)

lemma bitLength_nonneg: "0 \<le> bitLength a"
proof (induction a rule: bitLength.induct)
  case (1 a)
  then show ?case by (cases "a \<le> 0") (simp_all add: bitLength.simps[of a])
qed

lemma bitLength_bounds:
  "0 < a \<Longrightarrow> 2 ^ nat (bitLength a - 1) \<le> a \<and> a < 2 ^ nat (bitLength a)"
proof (induction a rule: bitLength.induct)
  case (1 a)
  from "1.prems" have b: "bitLength a = bitLength (a div 2) + 1"
    by (simp add: bitLength.simps[of a])
  show ?case
  proof (cases "a = 1")
    case True
    then show ?thesis by (simp add: bitLength.simps[of 1] bitLength.simps[of 0])
  next
    case False
    with "1.prems" have h: "0 < a div 2" by simp
    then have "bitLength (a div 2) = bitLength (a div 2 div 2) + 1"
      by (simp add: bitLength.simps[of "a div 2"])
    with bitLength_nonneg[of "a div 2 div 2"] have p: "1 \<le> bitLength (a div 2)" by simp
    from "1.prems" have "\<not> a \<le> 0" by simp
    from "1.IH"[OF this h]
    have ih: "2 ^ nat (bitLength (a div 2) - 1) \<le> a div 2" "a div 2 < 2 ^ nat (bitLength (a div 2))"
      by simp_all
    have e1: "nat (bitLength (a div 2)) = Suc (nat (bitLength (a div 2) - 1))"
      using p by simp
    have lo: "2 * 2 ^ nat (bitLength (a div 2) - 1) \<le> a"
      using ih(1) by linarith
    have hi: "a < 2 * 2 ^ nat (bitLength (a div 2))"
      using ih(2) by linarith
    have "nat (bitLength a - 1) = nat (bitLength (a div 2))"
      by (simp add: b)
    moreover have "nat (bitLength a) = Suc (nat (bitLength (a div 2)))"
      using p by (simp add: b)
    ultimately show ?thesis
      using lo hi e1 by simp
  qed
qed

lemma roundHalfEven_near: "\<bar>of_int (roundHalfEven y) - y\<bar> \<le> 1 / 2"
proof -
  define f where "f = \<lfloor>y\<rfloor>"
  define r where "r = y - of_int f"
  have r: "0 \<le> r" "r < 1" unfolding r_def f_def by linarith+
  have y: "y = of_int f + r" by (simp add: r_def)
  have fr: "\<lfloor>y\<rfloor> = f" "y - of_int f = r" by (simp_all add: r_def f_def)
  consider "r < 1 / 2" | "1 / 2 < r" | "r = 1 / 2" by linarith
  then show ?thesis
  proof cases
    case 1
    then have "roundHalfEven y = f"
      unfolding roundHalfEven_def Let_def fr by auto
    with r 1 show ?thesis by (simp add: y)
  next
    case 2
    then have "roundHalfEven y = f + 1"
      unfolding roundHalfEven_def Let_def fr by auto
    with r 2 show ?thesis by (simp add: y)
  next
    case 3
    then have "roundHalfEven y = f \<or> roundHalfEven y = f + 1"
      unfolding roundHalfEven_def Let_def fr by auto
    with 3 show ?thesis by (auto simp: y)
  qed
qed

lemma pow2_of_int: "0 \<le> k \<Longrightarrow> of_int (2 ^ nat k) = pow2 k"
  by (simp add: pow2_def)

lemma pow2_diff: "pow2 (a - b) = pow2 a / pow2 b"
  using pow2_add[of "a - b" b] pow2_pos[of b] by (simp add: field_simps)

lemma exponent_bounds:
  assumes "x \<noteq> 0"
  shows "pow2 (exponent x) \<le> \<bar>x\<bar> \<and> \<bar>x\<bar> < pow2 (exponent x + 1)"
proof -
  define a where "a = fst (quotient_of \<bar>x\<bar>)"
  define b where "b = snd (quotient_of \<bar>x\<bar>)"
  define e where "e = bitLength a - bitLength b"
  have b: "0 < b" by (simp add: b_def quotient_of_denom_pos')
  have x: "\<bar>x\<bar> = of_int a / of_int b"
    by (simp add: a_def b_def quotient_of_div)
  from assms have "0 < \<bar>x\<bar>" by simp
  with x b have a: "0 < a" by (simp add: zero_less_divide_iff)
  from bitLength_bounds[OF a] have la: "2 ^ nat (bitLength a - 1) \<le> a" "a < 2 ^ nat (bitLength a)"
    by simp_all
  from bitLength_bounds[OF b] have lb: "2 ^ nat (bitLength b - 1) \<le> b" "b < 2 ^ nat (bitLength b)"
    by simp_all
  have pa: "1 \<le> bitLength a"
    using a bitLength_nonneg[of "a div 2"] by (simp add: bitLength.simps[of a])
  have pb: "1 \<le> bitLength b"
    using b bitLength_nonneg[of "b div 2"] by (simp add: bitLength.simps[of b])
  have ra: "pow2 (bitLength a - 1) \<le> of_int a" "of_int a < pow2 (bitLength a)"
    using la pa pow2_of_int[of "bitLength a - 1"] pow2_of_int[of "bitLength a"]
    by (metis diff_ge_0_iff_ge of_int_le_iff, metis bitLength_nonneg of_int_less_iff)
  have rb: "pow2 (bitLength b - 1) \<le> of_int b" "of_int b < pow2 (bitLength b)"
    using lb pb pow2_of_int[of "bitLength b - 1"] pow2_of_int[of "bitLength b"]
    by (metis diff_ge_0_iff_ge of_int_le_iff, metis bitLength_nonneg of_int_less_iff)
  have bpos: "(0::rat) < of_int b" using b by simp
  have lower: "pow2 (e - 1) \<le> \<bar>x\<bar>"
  proof -
    have "pow2 (e - 1) = pow2 (bitLength a - 1) / pow2 (bitLength b)"
      by (simp add: e_def pow2_diff[symmetric] algebra_simps)
    also have "\<dots> \<le> of_int a / pow2 (bitLength b)"
      using ra(1) pow2_pos[of "bitLength b"] by (simp add: divide_right_mono)
    also have "\<dots> \<le> of_int a / of_int b"
      using rb(2) bpos a by (simp add: frac_le)
    finally show ?thesis by (simp add: x)
  qed
  have upper: "\<bar>x\<bar> < pow2 (e + 1)"
  proof -
    have "of_int a / of_int b < pow2 (bitLength a) / of_int b"
      using ra(2) bpos by (simp add: divide_strict_right_mono)
    also have "\<dots> \<le> pow2 (bitLength a) / pow2 (bitLength b - 1)"
      using rb(1) pow2_pos[of "bitLength b - 1"] pow2_pos[of "bitLength a"]
      by (simp add: frac_le)
    also have "\<dots> = pow2 (e + 1)"
      by (simp add: e_def pow2_diff[symmetric] algebra_simps)
    finally show ?thesis by (simp add: x)
  qed
  have ex: "exponent x = (if \<bar>x\<bar> < pow2 e then e - 1 else e)"
    by (simp add: exponent_def Let_def e_def a_def b_def)
  show ?thesis
  proof (cases "\<bar>x\<bar> < pow2 e")
    case True
    with lower show ?thesis by (simp add: ex)
  next
    case False
    with upper show ?thesis by (simp add: ex)
  qed
qed

text \<open>\<open>toDouble x\<close> is a multiple of the unit in the last place of \<open>x\<close>, half a unit from \<open>x\<close> at most.\<close>

lemma toDouble_near:
  assumes "toDouble x = Some y"
  shows "\<exists>n. y = of_int n * pow2 (max (exponent x) (- 1022) - 52)
           \<and> \<bar>y - x\<bar> \<le> pow2 (max (exponent x) (- 1022) - 53)"
proof (cases "x = 0")
  case True
  with assms have "y = 0" by (simp add: toDouble_def)
  with True pow2_pos[of "max (exponent x) (- 1022) - 53"] show ?thesis
    by (intro exI[of _ 0]) (simp add: less_imp_le)
next
  case False
  define q where "q = pow2 (max (exponent x) (- 1022) - 52)"
  define n where "n = roundHalfEven (x / q)"
  have q: "0 < q" by (simp add: q_def pow2_pos)
  from assms False have y: "y = of_int n * q"
    by (auto simp: toDouble_def Let_def q_def n_def split: if_splits)
  from roundHalfEven_near[of "x / q"] have "\<bar>of_int n - x / q\<bar> \<le> 1 / 2"
    by (simp add: n_def)
  then have A: "\<bar>of_int n - x / q\<bar> * q \<le> 1 / 2 * q"
    using q by (simp add: mult_right_mono)
  have B: "\<bar>of_int n - x / q\<bar> * q = \<bar>y - x\<bar>"
    using q by (simp add: y abs_mult[symmetric, of _ q, simplified] field_simps abs_if)
  have C: "1 / 2 * q = pow2 (max (exponent x) (- 1022) - 53)"
    using pow2_add[of "max (exponent x) (- 1022) - 53" 1]
    by (simp add: q_def pow2_def[of 1])
  have "\<bar>y - x\<bar> \<le> pow2 (max (exponent x) (- 1022) - 53)"
    unfolding B[symmetric] C[symmetric] by (rule A)
  with y show ?thesis
    unfolding q_def by blast
qed

lemma toDouble_err:
  assumes "toDouble x = Some y"
  shows "\<bar>y - x\<bar> \<le> \<bar>x\<bar> * pow2 (- 53) + pow2 (- 1075)"
proof (cases "x = 0")
  case True
  with assms pow2_pos[of "- 1075"] show ?thesis
    by (simp add: toDouble_def less_imp_le)
next
  case False
  from toDouble_near[OF assms]
  have n: "\<bar>y - x\<bar> \<le> pow2 (max (exponent x) (- 1022) - 53)" by blast
  have nn: "0 \<le> \<bar>x\<bar> * pow2 (- 53)"
    using pow2_pos[of "- 53"] by simp
  show ?thesis
  proof (cases "- 1022 \<le> exponent x")
    case True
    then have "pow2 (max (exponent x) (- 1022) - 53) = pow2 (exponent x) * pow2 (- 53)"
      using pow2_add[of "exponent x" "- 53"] by (simp add: max_def)
    also have "\<dots> \<le> \<bar>x\<bar> * pow2 (- 53)"
      using exponent_bounds[OF False] pow2_pos[of "- 53"] by (simp add: mult_right_mono)
    finally show ?thesis
      using n pow2_pos[of "- 1075"] by linarith
  next
    case False
    then have "pow2 (max (exponent x) (- 1022) - 53) = pow2 (- 1075)"
      by (simp add: max_def)
    with n nn show ?thesis by linarith
  qed
qed

lemma toDouble_finite:
  assumes "\<bar>x\<bar> < pow2 1023"
  shows "\<exists>y. toDouble x = Some y"
proof (cases "x = 0")
  case True
  then show ?thesis by (simp add: toDouble_def)
next
  case False
  have "exponent x < 1023"
  proof (rule ccontr)
    assume "\<not> exponent x < 1023"
    then have "pow2 1023 \<le> pow2 (exponent x)" by (simp add: pow2_mono)
    with exponent_bounds[OF False] assms show False by linarith
  qed
  then show ?thesis by (simp add: toDouble_def Let_def)
qed

text \<open>
  For prices within the range of the normal doubles, the derived discount of the code
  exists, and it is the exact percentage rounded, up to the error of five roundings:
  it differs from the exact percentage by \<open>1 / 2 + 1 / 10 ^ 12\<close> at most.
\<close>

lemma derivedDiscount_near:
  assumes d: "0 \<le> d" "d < p" and lo: "pow2 (- 1000) \<le> p" and hi: "p < pow2 1000"
  shows "\<exists>n. derivedDiscount d p = Some n
           \<and> \<bar>of_int n - (p - d) / p * 100\<bar> \<le> 1 / 2 + 1 / 10 ^ 12"
proof -
  define u where "u = pow2 (- 53)"
  define h where "h = pow2 (- 1075)"
  define X where "X = (p - d) / p"
  have u: "0 < u" "u \<le> 1 / 8000000000000000"
    by (simp_all add: u_def pow2_def)
  have h: "0 < h" by (simp add: h_def pow2_pos)
  have hu: "h \<le> u"
    unfolding h_def u_def by (rule pow2_mono) simp
  have p: "0 < p" using d by simp
  have big: "pow2 1000 \<le> pow2 1023" "2 * pow2 1000 \<le> pow2 1023" "128 \<le> pow2 1023"
    using pow2_mono[of 1000 1023] pow2_mono[of 1001 1023] pow2_add[of 1000 1]
      pow2_mono[of 7 1023]
    by (simp_all add: pow2_def[of 1] pow2_def[of 7])
  have hp: "h \<le> u * p"
  proof -
    have "h = pow2 (- 1000) * pow2 (- 75)"
      using pow2_add[of "- 1000" "- 75"] by (simp add: h_def)
    also have "\<dots> \<le> p * pow2 (- 75)"
      using lo pow2_pos[of "- 75"] by (simp add: mult_right_mono)
    also have "\<dots> \<le> p * u"
      unfolding u_def using p pow2_mono[of "- 75" "- 53"] by (simp add: mult_left_mono)
    finally show ?thesis by (simp add: mult.commute)
  qed
  define w where "w = u * p"
  have w: "0 < w" using u p by (simp add: w_def)
  have hw: "h \<le> w" using hp by (simp add: w_def)
  have X: "0 < X" "X \<le> 1" "X * p = p - d"
    using d p by (simp_all add: X_def field_simps)
  (* the operands *)
  from d hi big(1) have "\<bar>p\<bar> < pow2 1023" "\<bar>d\<bar> < pow2 1023" by linarith+
  then obtain p' d' where fp: "toDouble p = Some p'" and fd: "toDouble d = Some d'"
    using toDouble_finite[of p] toDouble_finite[of d] by blast
  have "\<bar>p' - p\<bar> \<le> \<bar>p\<bar> * u + h"
    unfolding u_def h_def by (rule toDouble_err[OF fp])
  then have ep: "\<bar>p' - p\<bar> \<le> 2 * w"
    using p hw by (simp add: w_def mult.commute)
  have "\<bar>d' - d\<bar> \<le> \<bar>d\<bar> * u + h"
    unfolding u_def h_def by (rule toDouble_err[OF fd])
  moreover have "\<bar>d\<bar> * u \<le> w"
    using d u by (simp add: w_def mult.commute mult_left_mono)
  ultimately have ed: "\<bar>d' - d\<bar> \<le> 2 * w"
    using hw by linarith
  (* the difference *)
  have w4: "4 * w \<le> p"
  proof -
    have "4 * w = (4 * u) * p" by (simp add: w_def)
    also have "\<dots> \<le> 1 * p"
      using u p by (intro mult_right_mono) simp_all
    finally show ?thesis by simp
  qed
  have sx: "\<bar>p' - d'\<bar> \<le> 2 * p"
    using ep ed d w4 by linarith
  with hi big(2) have "\<bar>p' - d'\<bar> < pow2 1023" by linarith
  then obtain s where fs: "toDouble (p' - d') = Some s"
    using toDouble_finite[of "p' - d'"] by blast
  have "\<bar>s - (p' - d')\<bar> \<le> \<bar>p' - d'\<bar> * u + h"
    unfolding u_def h_def by (rule toDouble_err[OF fs])
  moreover have "\<bar>p' - d'\<bar> * u \<le> 2 * p * u"
    by (rule mult_right_mono[OF sx]) (simp add: less_imp_le u)
  then have "\<bar>p' - d'\<bar> * u \<le> 2 * w"
    by (simp add: w_def algebra_simps)
  ultimately have "\<bar>s - (p' - d')\<bar> \<le> 3 * w"
    using hw by linarith
  with ep ed have es: "\<bar>s - (p - d)\<bar> \<le> 7 * w"
    by linarith
  (* the quotient *)
  have pp: "p / 2 \<le> p'"
    using ep w4 w by linarith
  then have pp0: "0 < p'" using p by linarith
  then have p0: "p' \<noteq> 0" by simp
  have "X * \<bar>p - p'\<bar> \<le> 1 * \<bar>p - p'\<bar>"
    using X by (intro mult_right_mono) simp_all
  then have xp: "\<bar>X * (p - p')\<bar> \<le> 2 * w"
    using ep X by (simp add: abs_mult)
  have "s - X * p' = (s - (p - d)) + X * (p - p')"
    using X(3) by (simp add: algebra_simps)
  with es xp have num: "\<bar>s - X * p'\<bar> \<le> 9 * w"
    by linarith
  have "s / p' - X = (s - X * p') / p'"
    using p0 by (simp add: field_simps)
  then have "\<bar>s / p' - X\<bar> = \<bar>s - X * p'\<bar> / p'"
    using pp0 by simp
  also have "\<dots> \<le> 9 * w / p'"
    using num pp0 by (simp add: divide_right_mono)
  also have "\<dots> \<le> 9 * w / (p / 2)"
    using pp p w by (intro divide_left_mono) simp_all
  also have "\<dots> = 18 * u"
    using p by (simp add: w_def)
  finally have er: "\<bar>s / p' - X\<bar> \<le> 18 * u" .
  have rx: "\<bar>s / p'\<bar> \<le> 2"
    using er X u by linarith
  with big(3) have "\<bar>s / p'\<bar> < pow2 1023" by linarith
  then obtain q where fq: "toDouble (s / p') = Some q"
    using toDouble_finite[of "s / p'"] by blast
  have "\<bar>q - s / p'\<bar> \<le> \<bar>s / p'\<bar> * u + h"
    unfolding u_def h_def by (rule toDouble_err[OF fq])
  moreover have "\<bar>s / p'\<bar> * u \<le> 2 * u"
    by (rule mult_right_mono[OF rx]) (simp add: less_imp_le u)
  ultimately have "\<bar>q - s / p'\<bar> \<le> 3 * u"
    using hu by linarith
  with er have eq: "\<bar>q - X\<bar> \<le> 21 * u"
    by linarith
  (* the product *)
  have tx: "\<bar>q * 100\<bar> \<le> 101"
    using eq X u by linarith
  with big(3) have "\<bar>q * 100\<bar> < pow2 1023" by linarith
  then obtain t where ft: "toDouble (q * 100) = Some t"
    using toDouble_finite[of "q * 100"] by blast
  have "\<bar>t - q * 100\<bar> \<le> \<bar>q * 100\<bar> * u + h"
    unfolding u_def h_def by (rule toDouble_err[OF ft])
  moreover have "\<bar>q * 100\<bar> * u \<le> 101 * u"
    by (rule mult_right_mono[OF tx]) (simp add: less_imp_le u)
  ultimately have "\<bar>t - q * 100\<bar> \<le> 102 * u"
    using hu by linarith
  with eq have et: "\<bar>t - X * 100\<bar> \<le> 2202 * u"
    by linarith
  (* the rounding *)
  have "of_int (mathRound t) \<le> t + 1 / 2" "t + 1 / 2 < of_int (mathRound t) + 1"
    unfolding mathRound_def by linarith+
  with et u have "\<bar>of_int (mathRound t) - X * 100\<bar> \<le> 1 / 2 + 1 / 1000000000000"
    by linarith
  moreover have "derivedDiscount d p = Some (mathRound t)"
    by (simp add: derivedDiscount_def fd fp fs fq ft p0)
  ultimately show ?thesis by (simp add: X_def)
qed

text \<open>
  So the code returns the nearest integer \<open>k\<close> of the exact percentage, unless the
  percentage is within \<open>1 / 10 ^ 12\<close> of the middle of two integers.
\<close>

lemma derivedDiscount_exact:
  assumes "0 \<le> d" "d < p" "pow2 (- 1000) \<le> p" "p < pow2 1000"
    and "of_int k - 1 / 2 + 1 / 10 ^ 12 < (p - d) / p * 100"
    and "(p - d) / p * 100 < of_int k + 1 / 2 - 1 / 10 ^ 12"
  shows "derivedDiscount d p = Some k"
proof -
  from derivedDiscount_near[OF assms(1-4)] obtain n where
    n: "derivedDiscount d p = Some n"
      "\<bar>of_int n - (p - d) / p * 100\<bar> \<le> 1 / 2 + 1 / 10 ^ 12"
    by blast
  from n(2) assms(5,6) have "(of_int n :: rat) < of_int k + 1" "(of_int k :: rat) - 1 < of_int n"
    by linarith+
  then have "(of_int n :: rat) < of_int (k + 1)" "(of_int (k - 1) :: rat) < of_int n"
    by simp_all
  then have "n < k + 1" "k - 1 < n"
    unfolding of_int_less_iff by simp_all
  then have "n = k" by linarith
  with n(1) show ?thesis by simp
qed

lemma exponent_unique:
  assumes "pow2 e \<le> \<bar>x\<bar>" "\<bar>x\<bar> < pow2 (e + 1)"
  shows "exponent x = e"
proof -
  from assms(1) pow2_pos[of e] have nz: "x \<noteq> 0" by auto
  from exponent_bounds[OF nz]
  have b: "pow2 (exponent x) \<le> \<bar>x\<bar>" "\<bar>x\<bar> < pow2 (exponent x + 1)" by simp_all
  have "\<not> exponent x < e"
  proof
    assume "exponent x < e"
    then have "pow2 (exponent x + 1) \<le> pow2 e" by (simp add: pow2_mono)
    with b assms show False by linarith
  qed
  moreover have "\<not> e < exponent x"
  proof
    assume "e < exponent x"
    then have "pow2 (e + 1) \<le> pow2 (exponent x)" by (simp add: pow2_mono)
    with b assms show False by linarith
  qed
  ultimately show ?thesis by linarith
qed

lemma exponent_below:
  assumes "x \<noteq> 0" "\<bar>x\<bar> < pow2 k"
  shows "exponent x < k"
proof (rule ccontr)
  assume "\<not> exponent x < k"
  then have "pow2 k \<le> pow2 (exponent x)" by (simp add: pow2_mono)
  with exponent_bounds[OF assms(1)] assms(2) show False by linarith
qed

lemma pow2_53: "pow2 (k + 1) = 9007199254740992 * pow2 (k - 52)"
proof -
  have a: "k + 1 = 53 + (k - 52)" by simp
  have b: "pow2 53 = 9007199254740992" by (simp add: pow2_def)
  show ?thesis by (simp only: a pow2_add b)
qed

lemma pow2_52: "pow2 k = 4503599627370496 * pow2 (k - 52)"
proof -
  have a: "k = 52 + (k - 52)" by simp
  have b: "pow2 52 = 4503599627370496" by (simp add: pow2_def)
  have "pow2 (52 + (k - 52)) = 4503599627370496 * pow2 (k - 52)"
    by (simp only: pow2_add b)
  then show ?thesis by simp
qed

lemma roundHalfEven_int: "roundHalfEven (of_int n) = n"
  by (simp add: roundHalfEven_def)

text \<open>
  The doubles: the multiples \<open>n * 2 ^ (k - 52)\<close> with \<open>|n| < 2 ^ 53\<close> and \<open>k\<close> from -1022 to
  1023, where \<open>2 ^ 52 \<le> |n|\<close> (a normal number) or \<open>k = -1022\<close> (a subnormal one, or zero).
  \<open>toDouble\<close> leaves every double as it is.
\<close>

lemma toDouble_grid:
  assumes k: "- 1022 \<le> k" "k \<le> 1023" and n: "\<bar>n\<bar> < 9007199254740992"
    and norm: "k = - 1022 \<or> 4503599627370496 \<le> \<bar>n\<bar>"
  shows "toDouble (of_int n * pow2 (k - 52)) = Some (of_int n * pow2 (k - 52))"
proof (cases "n = 0")
  case True
  then show ?thesis by (simp add: toDouble_def)
next
  case False
  define q where "q = pow2 (k - 52)"
  define y where "y = of_int n * q"
  have q: "0 < q" by (simp add: q_def pow2_pos)
  have y0: "y \<noteq> 0" using False q by (simp add: y_def)
  have ay: "\<bar>y\<bar> = of_int \<bar>n\<bar> * q"
    using q by (simp add: y_def abs_mult)
  have "(of_int \<bar>n\<bar> :: rat) < of_int 9007199254740992"
    using n unfolding of_int_less_iff .
  then have "of_int \<bar>n\<bar> * q < 9007199254740992 * q"
    using q by (simp add: mult_strict_right_mono)
  also have "9007199254740992 * q = pow2 (k + 1)"
    by (simp add: q_def pow2_53[of k])
  finally have hi: "\<bar>y\<bar> < pow2 (k + 1)" by (simp add: ay)
  have m: "max (exponent y) (- 1022) = k"
  proof (cases "4503599627370496 \<le> \<bar>n\<bar>")
    case True
    then have "(of_int 4503599627370496 :: rat) \<le> of_int \<bar>n\<bar>"
      unfolding of_int_le_iff .
    then have "4503599627370496 * q \<le> of_int \<bar>n\<bar> * q"
      using q by (simp add: mult_right_mono)
    moreover have "4503599627370496 * q = pow2 k"
      by (simp add: q_def pow2_52[of k])
    ultimately have "pow2 k \<le> \<bar>y\<bar>" by (simp add: ay)
    from exponent_unique[OF this hi] k show ?thesis by simp
  next
    case False
    with norm have k': "k = - 1022" by simp
    from False have "(of_int \<bar>n\<bar> :: rat) < of_int 4503599627370496"
      unfolding of_int_less_iff by simp
    then have "of_int \<bar>n\<bar> * q < 4503599627370496 * q"
      using q by (simp add: mult_strict_right_mono)
    also have "4503599627370496 * q = pow2 k"
      by (simp add: q_def pow2_52[of k])
    finally have "\<bar>y\<bar> < pow2 (- 1022)" by (simp add: ay k')
    from exponent_below[OF y0 this] k' show ?thesis by simp
  qed
  have e: "exponent y \<le> 1023"
    using exponent_below[OF y0 hi] k by simp
  have r: "roundHalfEven (y / q) = n"
    using q by (simp add: y_def roundHalfEven_int)
  have "toDouble y = Some y"
    using y0 e n by (simp add: toDouble_def Let_def m q_def[symmetric] r) (simp add: y_def)
  then show ?thesis by (simp add: y_def q_def)
qed

lemma toDouble_idem:
  assumes "toDouble x = Some y"
  shows "toDouble y = Some y"
proof (cases "x = 0")
  case True
  with assms show ?thesis by (auto simp: toDouble_def)
next
  case False
  define k where "k = max (exponent x) (- 1022)"
  define q where "q = pow2 (k - 52)"
  define z where "z = x / q"
  define n where "n = roundHalfEven z"
  have q: "0 < q" by (simp add: q_def pow2_pos)
  from assms False have e: "exponent x \<le> 1023"
    and o: "\<not> (exponent x = 1023 \<and> \<bar>n\<bar> = 9007199254740992)"
    and y: "y = of_int n * q"
    by (auto simp: toDouble_def Let_def k_def q_def n_def z_def split: if_splits)
  have k: "- 1022 \<le> k" "k \<le> 1023" "exponent x \<le> k"
    using e by (simp_all add: k_def)
  from exponent_bounds[OF False]
  have b: "pow2 (exponent x) \<le> \<bar>x\<bar>" "\<bar>x\<bar> < pow2 (exponent x + 1)" by simp_all
  have ax: "\<bar>z\<bar> = \<bar>x\<bar> / q" using q by (simp add: z_def)
  have "\<bar>x\<bar> < pow2 (k + 1)"
    using b(2) pow2_mono[of "exponent x + 1" "k + 1"] k(3) by simp
  also have "pow2 (k + 1) = 9007199254740992 * q"
    unfolding q_def by (rule pow2_53)
  finally have up: "\<bar>z\<bar> < 9007199254740992"
    using q by (simp add: ax field_simps)
  from roundHalfEven_near[of z] have near: "\<bar>of_int n - z\<bar> \<le> 1 / 2"
    by (simp add: n_def)
  from up near have "\<bar>(of_int n :: rat)\<bar> < 9007199254740993" by linarith
  then have "(of_int \<bar>n\<bar> :: rat) < of_int 9007199254740993" by simp
  then have nle: "\<bar>n\<bar> \<le> 9007199254740992"
    unfolding of_int_less_iff by simp
  have low: "4503599627370496 \<le> \<bar>n\<bar>" if "k = exponent x"
  proof -
    have "pow2 k = 4503599627370496 * q"
      unfolding q_def by (rule pow2_52)
    with b(1) that have "4503599627370496 \<le> \<bar>z\<bar>"
      using q by (simp add: ax field_simps)
    with near have "(4503599627370495 :: rat) < \<bar>of_int n\<bar>" by linarith
    then have "(of_int 4503599627370495 :: rat) < of_int \<bar>n\<bar>" by simp
    then show ?thesis unfolding of_int_less_iff by simp
  qed
  have norm: "k = - 1022 \<or> 4503599627370496 \<le> \<bar>n\<bar>"
    using low by (auto simp: k_def max_def)
  show ?thesis
  proof (cases "\<bar>n\<bar> = 9007199254740992")
    case False
    with nle have "\<bar>n\<bar> < 9007199254740992" by simp
    from toDouble_grid[OF k(1,2) this norm] show ?thesis by (simp add: y q_def)
  next
    case True
    have sub: "\<bar>z\<bar> < 4503599627370496" if "exponent x < - 1022"
    proof -
      from that have "pow2 (exponent x + 1) \<le> pow2 (- 1022)" by (simp add: pow2_mono)
      with b(2) have "\<bar>x\<bar> < pow2 (- 1022)" by linarith
      moreover have "pow2 (- 1022) = 4503599627370496 * q"
        using that pow2_52[of "- 1022"] by (simp add: q_def k_def)
      ultimately show ?thesis using q by (simp add: ax field_simps)
    qed
    have kx: "k = exponent x"
    proof (rule ccontr)
      assume "k \<noteq> exponent x"
      then have "exponent x < - 1022" by (simp add: k_def max_def split: if_splits)
      from sub[OF this] near have "\<bar>(of_int n :: rat)\<bar> < 9007199254740992"
        by linarith
      then have "(of_int \<bar>n\<bar> :: rat) < of_int 9007199254740992" by simp
      then have "\<bar>n\<bar> < 9007199254740992" unfolding of_int_less_iff .
      with True show False by simp
    qed
    with o True e have k1: "k + 1 \<le> 1023" by simp
    define n' where "n' = n div 2"
    from True have "n = 9007199254740992 \<or> n = - 9007199254740992"
      by linarith
    then have n': "n = 2 * n'" "\<bar>n'\<bar> = 4503599627370496"
      unfolding n'_def by auto
    have "pow2 (k + 1 - 52) = 2 * q"
      using pow2_add[of 1 "k - 52"] by (simp add: q_def pow2_def[of 1])
    then have y': "y = of_int n' * pow2 (k + 1 - 52)"
      by (simp add: y n'(1))
    have "toDouble (of_int n' * pow2 (k + 1 - 52)) = Some (of_int n' * pow2 (k + 1 - 52))"
      using k(1) k1 n'(2) by (intro toDouble_grid) simp_all
    then show ?thesis by (simp add: y')
  qed
qed

section \<open>The loops of the price extraction\<close>

lemma tryPatterns_Cons:
  "tryPatterns text (p # ps) =
     (case accepted text p of Some v \<Rightarrow> Some v | None \<Rightarrow> tryPatterns text ps)"
  by (simp add: accepted_def split: option.splits)

lemma tryPatterns_Some:
  "tryPatterns text ps = Some v \<Longrightarrow> \<exists>p\<in>set ps. accepted text p = Some v"
proof (induction ps)
  case Nil
  then show ?case by simp
next
  case (Cons p ps)
  then show ?case
    unfolding tryPatterns_Cons by (cases "accepted text p") auto
qed

lemma tryPatterns_None:
  "tryPatterns text ps = None \<Longrightarrow> \<forall>p\<in>set ps. accepted text p = None"
proof (induction ps)
  case Nil
  then show ?case by simp
next
  case (Cons p ps)
  then show ?case
    unfolding tryPatterns_Cons by (cases "accepted text p") auto
qed

lemma accepted_range: "accepted text p = Some v \<Longrightarrow> 0 < v \<and> v < 10000000"
  by (auto simp: accepted_def split: option.splits if_splits)

lemma tryCurrencies_cases:
  "(\<exists>v c ps p. tryCurrencies text tbl = (Some v, c) \<and> (c, ps) \<in> set tbl \<and> p \<in> set ps
       \<and> accepted text p = Some v)
   \<or> (tryCurrencies text tbl = (None, js ''USD'')
       \<and> (\<forall>(c, ps)\<in>set tbl. \<forall>p\<in>set ps. accepted text p = None))"
proof (induction tbl)
  case Nil
  then show ?case by simp
next
  case (Cons e tbl)
  obtain c ps where e: "e = (c, ps)" by (cases e)
  show ?case
  proof (cases "tryPatterns text ps")
    case None
    have step: "tryCurrencies text (e # tbl) = tryCurrencies text tbl"
      by (simp add: e None)
    from Cons.IH show ?thesis
    proof
      assume "\<exists>v c ps p. tryCurrencies text tbl = (Some v, c) \<and> (c, ps) \<in> set tbl
          \<and> p \<in> set ps \<and> accepted text p = Some v"
      then obtain v c' ps' p where "tryCurrencies text tbl = (Some v, c')" "(c', ps') \<in> set tbl"
          "p \<in> set ps'" "accepted text p = Some v" by blast
      then have "tryCurrencies text (e # tbl) = (Some v, c') \<and> (c', ps') \<in> set (e # tbl)
          \<and> p \<in> set ps' \<and> accepted text p = Some v"
        by (simp add: step)
      then show ?thesis by blast
    next
      assume "tryCurrencies text tbl = (None, js ''USD'')
          \<and> (\<forall>(c, ps)\<in>set tbl. \<forall>p\<in>set ps. accepted text p = None)"
      then have "tryCurrencies text (e # tbl) = (None, js ''USD'')"
        and "\<forall>(c, ps)\<in>set tbl. \<forall>p\<in>set ps. accepted text p = None"
        by (simp_all add: step)
      moreover from tryPatterns_None[OF None]
      have "\<forall>(c, ps)\<in>set [e]. \<forall>p\<in>set ps. accepted text p = None"
        by (simp add: e)
      ultimately have "tryCurrencies text (e # tbl) = (None, js ''USD'')
          \<and> (\<forall>(c, ps)\<in>set (e # tbl). \<forall>p\<in>set ps. accepted text p = None)"
        by simp
      then show ?thesis by blast
    qed
  next
    case (Some v)
    from tryPatterns_Some[OF Some] obtain p where "p \<in> set ps" "accepted text p = Some v" by auto
    then have "tryCurrencies text (e # tbl) = (Some v, c) \<and> (c, ps) \<in> set (e # tbl)
          \<and> p \<in> set ps \<and> accepted text p = Some v"
      by (simp add: e Some)
    then show ?thesis by blast
  qed
qed

lemma tryDealPatterns_spec:
  "tryDealPatterns text tbl =
     (case firstPairIn text tbl of
        Some (a, b, c) \<Rightarrow> (Some (min a b), Some (max a b), c)
      | None \<Rightarrow> (fst (extractPriceWithCurrency text), None, snd (extractPriceWithCurrency text)))"
proof (induction tbl)
  case Nil
  then show ?case by (simp add: firstPairIn_def Let_def)
next
  case (Cons e tbl)
  obtain p c where e: "e = (p, c)" by (cases e)
  show ?case
  proof (cases "pairAt text e")
    case None
    then have "tryDealPatterns text (e # tbl) = tryDealPatterns text tbl"
      by (auto simp: e pairAt_def split: option.splits)
    moreover from None have "firstPairIn text (e # tbl) = firstPairIn text tbl"
      by (simp add: firstPairIn_def)
    ultimately show ?thesis using Cons.IH by simp
  next
    case (Some abc)
    obtain a b c' where abc: "abc = (a, b, c')" by (cases abc)
    from Some have "tryDealPatterns text (e # tbl) = (Some (min a b), Some (max a b), c')"
      by (auto simp: e abc pairAt_def split: option.splits)
    moreover from Some have "firstPairIn text (e # tbl) = Some (a, b, c')"
      by (simp add: firstPairIn_def abc)
    ultimately show ?thesis by simp
  qed
qed

lemma extractDiscount_explicit:
  "explicitDiscount text = Some n \<Longrightarrow> 1 \<le> n \<Longrightarrow> n \<le> 100 \<Longrightarrow>
     extractDiscount text deal orig = Some n"
  by (auto simp: extractDiscount_def explicitDiscount_def Let_def split: option.splits)

lemma extractDiscount_derived:
  assumes "\<not> (\<exists>n. explicitDiscount text = Some n \<and> 1 \<le> n \<and> n \<le> 100)"
  shows "extractDiscount text deal orig =
       (if truthy deal \<and> truthy orig \<and> the orig > the deal
        then (case derivedDiscount (the deal) (the orig) of
                None \<Rightarrow> None
              | Some discount \<Rightarrow>
                  if 0 < discount \<and> discount \<le> 100 then Some discount else None)
        else None)"
proof -
  have "(case match text discountPattern of
               None \<Rightarrow> None
             | Some discountMatch \<Rightarrow>
                 (case parseInt (group text discountMatch 1) of
                    None \<Rightarrow> None
                  | Some discount \<Rightarrow>
                      if 0 < discount \<and> discount \<le> 100 then Some discount else None)) = None"
  proof (cases "explicitDiscount text")
    case None
    then show ?thesis by (auto simp: explicitDiscount_def split: option.splits)
  next
    case (Some n)
    with assms have "\<not> (0 < n \<and> n \<le> 100)" by auto
    with Some show ?thesis by (auto simp: explicitDiscount_def split: option.splits)
  qed
  then show ?thesis
    by (simp add: extractDiscount_def Let_def)
qed

section \<open>The two passes over the addresses\<close>

lemma knownStore_iff:
  "knownStore pss u \<longleftrightarrow> list_ex (\<lambda>ps. list_ex (\<lambda>pattern. test pattern u) ps) pss"
  by (induction pss) auto

lemma knownStore_isMerchant: "knownStore (map snd STORE_PATTERNS) u = isMerchant u"
  unfolding knownStore_iff isMerchant_def by (simp add: list_ex_iff)

lemma firstPass_find:
  "firstPass us = map_option cleanTrailing (find (\<lambda>u. isProductUrl u \<and> isMerchant u) us)"
  by (induction us) (auto simp: knownStore_isMerchant)

lemma secondPass_find:
  "secondPass us = map_option cleanTrailing (find isProductUrl us)"
  by (induction us) auto

lemma extractProductUrl_spec:
  "extractProductUrl post comments =
     (case find (\<lambda>u. isProductUrl u \<and> isMerchant u) (allUrls post comments) of
        Some u \<Rightarrow> cleanTrailing u
      | None \<Rightarrow>
          (case find isProductUrl (allUrls post comments) of
             Some u \<Rightarrow> cleanTrailing u
           | None \<Rightarrow> fallback post))"
  unfolding extractProductUrl_def firstPass_find secondPass_find fallback_def
  by (auto split: option.splits)

lemma find_append_first:
  "\<forall>v\<in>set us1. \<not> P v \<Longrightarrow> P u \<Longrightarrow> find P (us1 @ u # us2) = Some u"
  by (induction us1) auto

lemma extractProductUrl_prefers:
  assumes "allUrls post comments = us1 @ u # us2"
    and "isProductUrl u" "isMerchant u"
    and "\<forall>v\<in>set us1. \<not> (isProductUrl v \<and> isMerchant v)"
  shows "extractProductUrl post comments = cleanTrailing u"
  using find_append_first[of us1 "\<lambda>u. isProductUrl u \<and> isMerchant u" u us2] assms
  by (simp add: extractProductUrl_spec)

lemma find_None_filter: "find P xs = None \<longleftrightarrow> filter P xs = []"
  by (induction xs) auto

lemma extractProductUrl_reddit:
  "includesStr (extractProductUrl post comments) (js ''reddit.com'')
     \<longleftrightarrow> filter isProductUrl (allUrls post comments) = []"
proof (cases "find isProductUrl (allUrls post comments)")
  case None
  then have "find (\<lambda>u. isProductUrl u \<and> isMerchant u) (allUrls post comments) = None"
    by (auto simp: find_None_iff)
  with None have "extractProductUrl post comments = fallback post"
    by (simp add: extractProductUrl_spec)
  with None show ?thesis
    by (simp add: find_None_filter fallback_def fallback_reddit)
next
  case (Some u)
  then have u: "isProductUrl u" by (auto simp: find_Some_iff)
  have "\<exists>v. isProductUrl v \<and> extractProductUrl post comments = cleanTrailing v"
  proof (cases "find (\<lambda>u. isProductUrl u \<and> isMerchant u) (allUrls post comments)")
    case None
    with Some u show ?thesis by (auto simp: extractProductUrl_spec)
  next
    case (Some v)
    then have "isProductUrl v" by (auto simp: find_Some_iff)
    with Some show ?thesis by (auto simp: extractProductUrl_spec)
  qed
  then have "\<not> includesStr (extractProductUrl post comments) (js ''reddit.com'')"
    using product_no_reddit by auto
  moreover from Some have "filter isProductUrl (allUrls post comments) \<noteq> []"
    by (simp flip: find_None_filter)
  ultimately show ?thesis by simp
qed

lemma extractProductUrl_fallback:
  "extractProductUrl post comments = fallback post
     \<longleftrightarrow> filter isProductUrl (allUrls post comments) = []"
proof
  assume "extractProductUrl post comments = fallback post"
  then have "includesStr (extractProductUrl post comments) (js ''reddit.com'')"
    by (simp add: fallback_def fallback_reddit)
  then show "filter isProductUrl (allUrls post comments) = []"
    by (simp add: extractProductUrl_reddit)
next
  assume "filter isProductUrl (allUrls post comments) = []"
  then have "find isProductUrl (allUrls post comments) = None"
    by (simp add: find_None_filter)
  moreover from this
  have "find (\<lambda>u. isProductUrl u \<and> isMerchant u) (allUrls post comments) = None"
    by (auto simp: find_None_iff)
  ultimately show "extractProductUrl post comments = fallback post"
    by (simp add: extractProductUrl_spec)
qed

lemma extractDiscount_range:
  "extractDiscount text deal orig = Some n \<Longrightarrow> 0 < n \<and> n \<le> 100"
  by (auto simp: extractDiscount_def Let_def split: option.splits if_splits)

lemma truthy_discount:
  "truthy (extractDiscount text deal orig) \<longleftrightarrow> extractDiscount text deal orig \<noteq> None"
  using extractDiscount_range[of "text" deal orig]
  by (cases "extractDiscount text deal orig") (auto simp: truthy_def)

lemma parse_gate:
  "parseRedditPost w post comments = None \<longleftrightarrow>
     skipped post
     \<or> (\<not> truthy (fst (extractPrices (fullText post)))
        \<and> \<not> truthy (extractDiscount (fullText post) (fst (extractPrices (fullText post)))
                   (fst (snd (extractPrices (fullText post)))))
        \<and> includesStr (extractProductUrl post comments) (js ''reddit.com''))"
  by (simp add: parseRedditPost_def Let_def)

section \<open>The cleaned title\<close>

lemma upperPoint_nonempty: "upperPoint up c \<noteq> []"
  by (simp add: upperPoint_def encode_def)

lemma toUpperCase_unit: "toUpperCase up [c] = upperPoint up c"
  by (simp add: toUpperCase_def)

lemma toUpperCase_ascii: "c < 0x80 \<Longrightarrow> toUpperCase up [c] = [upperAscii c]"
  by (simp add: toUpperCase_def upperPoint_def)

lemma toUpperCase_first: "length (take 1 s) \<le> length (toUpperCase up (take 1 s))"
proof (cases s)
  case Nil
  then show ?thesis by simp
next
  case (Cons c cs)
  have "1 \<le> length (upperPoint up c)"
    using upperPoint_nonempty[of up c] by (cases "upperPoint up c") auto
  with Cons show ?thesis by (simp add: toUpperCase_unit)
qed

lemma cleanTitle_short: "length (cleaned t) < 5 \<Longrightarrow> cleanTitle up t = trim t"
  by (simp add: cleanTitle_def)

lemma cleanTitle_long:
  assumes "5 \<le> length (cleaned t)"
  shows "cleanTitle up t = toUpperCase up (take 1 (cleaned t)) @ drop 1 (cleaned t)
     \<and> length (cleaned t) \<le> length (cleanTitle up t)"
proof -
  have eq: "cleanTitle up t = toUpperCase up (take 1 (cleaned t)) @ drop 1 (cleaned t)"
    using assms by (simp add: cleanTitle_def)
  have "length (cleaned t) = length (take 1 (cleaned t)) + length (drop 1 (cleaned t))"
    using assms by simp
  also have "\<dots> \<le> length (toUpperCase up (take 1 (cleaned t))) + length (drop 1 (cleaned t))"
    using toUpperCase_first[of "cleaned t" up] by simp
  finally show ?thesis using eq by simp
qed

lemma cleanTitle_length: "length (cleanTitle up t) < 5 \<Longrightarrow> length (trim t) < 5"
  using cleanTitle_short[of t up] cleanTitle_long[of t up]
  by (cases "length (cleaned t) < 5") auto

lemma dropWhile_all: "(\<forall>x\<in>set (dropWhile P xs). P x) \<longleftrightarrow> (\<forall>x\<in>set xs. P x)"
proof
  assume a: "\<forall>x\<in>set (dropWhile P xs). P x"
  have "dropWhile P xs = []"
  proof (rule ccontr)
    assume n: "dropWhile P xs \<noteq> []"
    then have "\<not> P (hd (dropWhile P xs))" by (rule hd_dropWhile)
    moreover from n have "hd (dropWhile P xs) \<in> set (dropWhile P xs)" by simp
    ultimately show False using a by blast
  qed
  then show "\<forall>x\<in>set xs. P x" by simp
next
  assume "\<forall>x\<in>set xs. P x"
  then show "\<forall>x\<in>set (dropWhile P xs). P x" by (meson set_dropWhileD)
qed

lemma trim_empty: "trim t = [] \<longleftrightarrow> (\<forall>c\<in>set t. isSpace c)"
  by (simp add: trim_def dropWhile_all)

lemma cleanTitle_nonempty:
  assumes "\<exists>c\<in>set t. \<not> isSpace c"
  shows "cleanTitle up t \<noteq> []"
proof (cases "length (cleaned t) < 5")
  case True
  with assms show ?thesis by (simp add: cleanTitle_short trim_empty)
next
  case False
  with cleanTitle_long[of t up] show ?thesis by auto
qed

lemma parse_title:
  "parseRedditPost w post comments = Some deal \<Longrightarrow> title deal = cleanTitle (upperCase w) (post_title post)"
  by (auto simp: parseRedditPost_def Let_def split: if_splits)

section \<open>The image\<close>

lemma fetchOgImage_failure:
  "fetch w u = Threw
   \<or> (\<exists>r. fetch w u = Returned r \<and>
        (\<not> ok r \<or> body r = Threw
         \<or> (\<exists>markup. body r = Returned markup \<and>
              (ogImage w markup = Threw
               \<or> (\<exists>i. ogImage w markup = Returned i \<and> \<not> truthyStr i
                      \<and> twitterImage w markup = Threw)))))
   \<Longrightarrow> fetchOgImage w u = None"
  by (auto simp: fetchOgImage_def fetchOgImageTry_def split: outcome.splits)

lemma extractImageUrl_no_og:
  "fetchOgImage w u = None \<Longrightarrow> extractImageUrl w post u = postImage post"
  by (simp add: extractImageUrl_def Let_def truthyStr_def)

section \<open>The example post\<close>

lemma sony_cleaned: "cleaned sonyTitle = js ''HUGE DEAL: Sony Headphones $199 (was $299)''"
  by code_simp

lemma sony_prices: "extractPrices (sonyTitle @ js '' '') = (Some 199, Some 299, js ''USD'')"
  by code_simp

lemma sony_explicit: "match (sonyTitle @ js '' '') discountPattern = None"
  by code_simp

lemma sony_derived: "derivedDiscount 199 299 = Some 33"
  by code_simp

lemma sony_discount: "extractDiscount (sonyTitle @ js '' '') (Some 199) (Some 299) = Some 33"
  by (simp add: extractDiscount_def sony_explicit sony_derived truthy_def)

lemma sony_category: "detectCategory (sonyTitle @ js '' '') = js ''electronics''"
  by code_simp

lemma sony_store: "detectStore sonyUrl = Some (js ''Amazon'')"
  by code_simp

lemma sony_skip: "list_ex (\<lambda>pattern. test pattern sonyTitle) skipPatterns = False"
  by code_simp

lemma sony_title_urls: "matchAll sonyTitle titleUrl = []"
  by code_simp

lemma empty_urls: "markdownUrls [] = [] \<and> matchAll [] plainUrl = []"
  by code_simp

lemma sony_first: "firstPass [sonyUrl] = Some sonyUrl"
  by code_simp

lemma sony_product: "isProductUrl sonyUrl"
  by code_simp

lemma sony_cleanTitle:
  "cleanTitle up sonyTitle = js ''HUGE DEAL: Sony Headphones $199 (was $299)''"
  by (simp add: cleanTitle_def sony_cleaned)
    (simp add: js_def toUpperCase_def upperPoint_def upperAscii_def)

lemma sony_parse:
  assumes "post_title post = sonyTitle" "selftext post = []" "\<not> is_self post"
    and "url post = Some sonyUrl" "post_id post = js ''abc''" "score post = 50"
  shows "parseRedditPost w post [] =
     Some \<lparr>title = js ''HUGE DEAL: Sony Headphones $199 (was $299)'',
           description = None, originalPrice = Some 299, dealPrice = Some 199,
           discountPercent = Some 33, currency = js ''USD'', productUrl = sonyUrl,
           imageUrl = extractImageUrl w post sonyUrl, store = Some (js ''Amazon''),
           categorySlug = js ''electronics'', redditPostId = js ''abc'', redditScore = 50\<rparr>"
proof -
  have ft: "fullText post = sonyTitle @ js '' ''"
    by (simp add: fullText_def assms)
  have sk: "\<not> skipped post"
    by (simp add: skipped_def assms sony_skip)
  have "sonyUrl \<noteq> []"
    by (simp add: sonyUrl_def js_def)
  then have au: "allUrls post [] = [sonyUrl]"
    by (simp add: allUrls_def assms empty_urls sony_title_urls truthyStr_def)
  have pu: "extractProductUrl post [] = sonyUrl"
    unfolding extractProductUrl_def au sony_first by simp
  show ?thesis
    by (simp add: parseRedditPost_def Let_def sk pu ft sony_prices sony_discount truthy_def
          sony_store sony_category sony_cleanTitle assms)
qed

section \<open>The statements\<close>

text \<open>
  C1 (amended). For a post with the title
  "(fire emoji) HUGE DEAL: Sony Headphones $199 (was $299) link in comments", an empty body,
  \<open>is_self\<close> false, the link \<open>http://amazon.com/dp/xyz\<close>, score 50, id \<open>abc\<close> and no
  comments, \<open>parseRedditPost\<close> returns a deal with dealPrice 199, originalPrice 299,
  discountPercent 33, currency USD, store Amazon, categorySlug electronics and productUrl
  \<open>http://amazon.com/dp/xyz\<close>, whatever the network answers. The title of the deal is
  "HUGE DEAL: Sony Headphones $199 (was $299)": \<open>cleanTitle\<close> removes the hype prefix only
  where the raw title starts with it, and here the raw title starts with the emoji; and
  no step of \<open>cleanTitle\<close> removes the prices.
\<close>

theorem sony_headphones_deal:
  assumes "post_title post = [0xD83D, 0xDD25]
             @ js '' HUGE DEAL: Sony Headphones $199 (was $299) link in comments''"
    and "selftext post = []" "\<not> is_self post"
    and "url post = Some (js ''http://amazon.com/dp/xyz'')"
    and "post_id post = js ''abc''" "score post = 50"
  shows "parseRedditPost w post [] =
     Some \<lparr>title = js ''HUGE DEAL: Sony Headphones $199 (was $299)'',
           description = None, originalPrice = Some 299, dealPrice = Some 199,
           discountPercent = Some 33, currency = js ''USD'',
           productUrl = js ''http://amazon.com/dp/xyz'',
           imageUrl = extractImageUrl w post (js ''http://amazon.com/dp/xyz''),
           store = Some (js ''Amazon''), categorySlug = js ''electronics'',
           redditPostId = js ''abc'', redditScore = 50\<rparr>"
  using sony_parse[of post w] assms
  by (simp add: sonyTitle_def sonyUrl_def)

text \<open>The hypotheses of C1 hold of \<open>sonyPost\<close>.\<close>

theorem sony_headphones_deal_witness:
  "parseRedditPost offline sonyPost [] =
     Some \<lparr>title = js ''HUGE DEAL: Sony Headphones $199 (was $299)'',
           description = None, originalPrice = Some 299, dealPrice = Some 199,
           discountPercent = Some 33, currency = js ''USD'',
           productUrl = js ''http://amazon.com/dp/xyz'',
           imageUrl = extractImageUrl offline sonyPost (js ''http://amazon.com/dp/xyz''),
           store = Some (js ''Amazon''), categorySlug = js ''electronics'',
           redditPostId = js ''abc'', redditScore = 50\<rparr>"
  using sony_headphones_deal[of sonyPost offline]
  by (simp add: sonyPost_def sonyTitle_def sonyUrl_def)

text \<open>C1 as first stated gives the title "Sony Headphones"; the parser does not.\<close>

theorem sony_title_counterexample:
  "map_option title (parseRedditPost offline sonyPost []) \<noteq> Some (js ''Sony Headphones'')"
proof -
  have "parseRedditPost offline sonyPost [] \<noteq> None
      \<and> title (the (parseRedditPost offline sonyPost []))
          = js ''HUGE DEAL: Sony Headphones $199 (was $299)''"
    using sony_parse[of sonyPost offline] by (simp add: sonyPost_def)
  then show ?thesis
    by (auto simp: js_def)
qed

text \<open>
  C2 (amended). \<open>firstPair text\<close> is the first pair pattern, in the order of
  \<open>dealPatterns\<close>, that matches \<open>text\<close> with two captures that both read as numbers
  (each holds a digit), together with the two numbers in the order of the text. When
  there is one, \<open>extractPrices\<close> returns the smaller number as dealPrice and the larger
  as originalPrice, with the currency of the pattern, whichever came first in the text;
  so originalPrice is never below dealPrice. When there is none, \<open>extractPrices\<close>
  returns the single price of \<open>extractPriceWithCurrency\<close> and no originalPrice.
\<close>

theorem pair_prices_ordered:
  "(\<forall>a b c. firstPair text = Some (a, b, c) \<longrightarrow>
       extractPrices text = (Some (min a b), Some (max a b), c))
   \<and> (firstPair text = None \<longrightarrow>
       extractPrices text
         = (fst (extractPriceWithCurrency text), None, snd (extractPriceWithCurrency text)))
   \<and> (\<forall>d p c. extractPrices text = (Some d, Some p, c) \<longrightarrow> d \<le> p)"
  unfolding extractPrices_def firstPair_def tryDealPatterns_spec[of "text" dealPatterns]
  by (auto split: option.splits)

lemma reg_pair: "firstPair (js ''$299 reg, now $199'') = Some (299, 199, js ''USD'')"
  by code_simp

lemma only5_pair: "firstPair (js ''only $5'') = None"
  by code_simp

lemma only5_single: "extractPriceWithCurrency (js ''only $5'') = (Some 5, js ''USD'')"
  by code_simp

text \<open>C2 at a text with the larger number first, and at a text with one price only.\<close>

theorem pair_prices_ordered_witness:
  "firstPair (js ''$299 reg, now $199'') = Some (299, 199, js ''USD'')
   \<and> extractPrices (js ''$299 reg, now $199'') = (Some 199, Some 299, js ''USD'')
   \<and> firstPair (js ''only $5'') = None
   \<and> extractPrices (js ''only $5'') = (Some 5, None, js ''USD'')"
  using pair_prices_ordered[of "js ''$299 reg, now $199''"]
    pair_prices_ordered[of "js ''only $5''"] reg_pair only5_pair only5_single
  by simp

lemma comma_match: "match (js ''$, was $5'') (fst (hd dealPatterns)) = Some (0, 9, [(2, 8, 9), (1, 1, 2)])"
  by code_simp

lemma comma_prices: "extractPrices (js ''$, was $5'') = (None, None, js ''USD'')"
  by code_simp

text \<open>
  C2 as first stated speaks of every text that a pair pattern matches. In "$, was $5" the
  first pair pattern matches, its first capture is a comma, which is no number, and
  \<open>extractPrices\<close> returns no price at all.
\<close>

theorem pair_prices_counterexample:
  "match (js ''$, was $5'') (fst (hd dealPatterns)) \<noteq> None
   \<and> extractPrices (js ''$, was $5'') = (None, None, js ''USD'')"
  using comma_match comma_prices by simp

lemma empty_no_phrase: "match (js '''') discountPattern = None"
  by code_simp

lemma derived_80_100: "derivedDiscount 80 100 = Some 20"
  by code_simp

lemma discount_80_100: "extractDiscount (js '''') (Some 80) (Some 100) = Some 20"
  by (simp add: extractDiscount_def empty_no_phrase derived_80_100 truthy_def)

text \<open>
  C3 (amended). \<open>explicitDiscount text\<close> is the number \<open>N\<close> of the first phrase
  "N% off" or "N% discount" of the text, \<open>N\<close> of one or two digits. If \<open>1 \<le> N \<le> 100\<close>,
  \<open>extractDiscount\<close> returns \<open>N\<close>. Otherwise, when both prices are present and not zero,
  and originalPrice is above dealPrice, it returns
  \<open>round((originalPrice - dealPrice) / originalPrice * 100)\<close> as the code computes it, in
  doubles (\<open>derivedDiscount\<close>), provided that this lies in (0, 100]; in every other case
  it returns null. For prices from \<open>1 / 2 ^ 1000\<close> to \<open>2 ^ 1000\<close> the value computed in
  doubles exists, and it differs from the exact percentage by \<open>1 / 2 + 1 / 10 ^ 12\<close> at
  most. With dealPrice 80, originalPrice 100 and no phrase the result is 20.
\<close>

theorem discount_priority:
  "(\<forall>n. explicitDiscount text = Some n \<and> 1 \<le> n \<and> n \<le> 100 \<longrightarrow>
       extractDiscount text deal orig = Some n)
   \<and> (\<not> (\<exists>n. explicitDiscount text = Some n \<and> 1 \<le> n \<and> n \<le> 100) \<longrightarrow>
       (\<forall>d p. deal = Some d \<and> orig = Some p \<and> d \<noteq> 0 \<and> p \<noteq> 0 \<and> d < p \<longrightarrow>
          extractDiscount text deal orig =
            (case derivedDiscount d p of
               None \<Rightarrow> None
             | Some n \<Rightarrow> if 0 < n \<and> n \<le> 100 then Some n else None))
       \<and> (deal = None \<or> deal = Some 0 \<or> orig = None \<or> orig = Some 0
            \<or> (\<exists>d p. deal = Some d \<and> orig = Some p \<and> p \<le> d) \<longrightarrow>
          extractDiscount text deal orig = None))
   \<and> (\<forall>d p. 0 \<le> d \<and> d < p \<and> 1 / 2 ^ 1000 \<le> p \<and> p < 2 ^ 1000 \<longrightarrow>
         (\<exists>n. derivedDiscount d p = Some n
            \<and> \<bar>of_int n - (p - d) / p * 100\<bar> \<le> 1 / 2 + 1 / 10 ^ 12))
   \<and> extractDiscount (js '''') (Some 80) (Some 100) = Some 20"
proof -
  have derived: "extractDiscount text deal orig =
        (case derivedDiscount d p of
           None \<Rightarrow> None
         | Some n \<Rightarrow> if 0 < n \<and> n \<le> 100 then Some n else None)"
    if "\<not> (\<exists>n. explicitDiscount text = Some n \<and> 1 \<le> n \<and> n \<le> 100)"
      and "deal = Some d" "orig = Some p" "d \<noteq> 0" "p \<noteq> 0" "d < p" for d p
    using extractDiscount_derived[OF that(1), of deal orig] that(2-6)
    by (simp add: truthy_def)
  have absent: "extractDiscount text deal orig = None"
    if "\<not> (\<exists>n. explicitDiscount text = Some n \<and> 1 \<le> n \<and> n \<le> 100)"
      and "deal = None \<or> deal = Some 0 \<or> orig = None \<or> orig = Some 0
            \<or> (\<exists>d p. deal = Some d \<and> orig = Some p \<and> p \<le> d)"
    using extractDiscount_derived[OF that(1), of deal orig] that(2)
    by (auto simp: truthy_def)
  show ?thesis
  proof (intro conjI impI allI)
    fix n
    assume "explicitDiscount text = Some n \<and> 1 \<le> n \<and> n \<le> 100"
    then show "extractDiscount text deal orig = Some n"
      using extractDiscount_explicit[of "text" n deal orig] by simp
  next
    fix d p
    assume "\<not> (\<exists>n. explicitDiscount text = Some n \<and> 1 \<le> n \<and> n \<le> 100)"
      and "deal = Some d \<and> orig = Some p \<and> d \<noteq> 0 \<and> p \<noteq> 0 \<and> d < p"
    then show "extractDiscount text deal orig =
        (case derivedDiscount d p of
           None \<Rightarrow> None
         | Some n \<Rightarrow> if 0 < n \<and> n \<le> 100 then Some n else None)"
      using derived[of d p] by simp
  next
    assume "\<not> (\<exists>n. explicitDiscount text = Some n \<and> 1 \<le> n \<and> n \<le> 100)"
      and "deal = None \<or> deal = Some 0 \<or> orig = None \<or> orig = Some 0
            \<or> (\<exists>d p. deal = Some d \<and> orig = Some p \<and> p \<le> d)"
    then show "extractDiscount text deal orig = None"
      by (rule absent)
  next
    fix d p :: rat
    assume "0 \<le> d \<and> d < p \<and> 1 / 2 ^ 1000 \<le> p \<and> p < 2 ^ 1000"
    then have "0 \<le> d" "d < p" "pow2 (- 1000) \<le> p" "p < pow2 1000"
      by (simp_all add: pow2_def)
    then show "\<exists>n. derivedDiscount d p = Some n
        \<and> \<bar>of_int n - (p - d) / p * 100\<bar> \<le> 1 / 2 + 1 / 10 ^ 12"
      by (rule derivedDiscount_near)
  next
    show "extractDiscount (js '''') (Some 80) (Some 100) = Some 20"
      by (rule discount_80_100)
  qed
qed

lemma explicit_25: "explicitDiscount (js ''now 25% off'') = Some 25"
  by code_simp

lemma lamp_explicit: "explicitDiscount (js ''Lamp $17 was $40 '') = None"
  by code_simp

lemma lamp_prices: "extractPrices (js ''Lamp $17 was $40 '') = (Some 17, Some 40, js ''USD'')"
  by code_simp

lemma lamp_derived: "derivedDiscount 17 40 = Some 57"
  by code_simp

lemma lamp_exact: "mathRound ((40 - 17) / 40 * 100) = 58"
  by code_simp

lemma lamp_range: "(0::rat) \<le> 17 \<and> (17::rat) < 40 \<and> 1 / 2 ^ 1000 \<le> (40::rat) \<and> (40::rat) < 2 ^ 1000"
proof -
  have "pow2 (- 1000) \<le> pow2 0" "pow2 6 \<le> pow2 1000"
    by (rule pow2_mono, simp)+
  then show ?thesis by (simp add: pow2_def)
qed

text \<open>
  C3 at a text with the phrase "25% off", and at the text "Lamp $17 was $40", which has
  no phrase: the prices are 17 and 40, and the discount is 57. In doubles 23 / 40 is just
  below 0.575 and its product with 100 is just below 57.5; the exact quotient would
  round to 58.
\<close>

theorem discount_priority_witness:
  "explicitDiscount (js ''now 25% off'') = Some 25
   \<and> extractDiscount (js ''now 25% off'') (Some 80) (Some 100) = Some 25
   \<and> explicitDiscount (js ''Lamp $17 was $40 '') = None
   \<and> extractPrices (js ''Lamp $17 was $40 '') = (Some 17, Some 40, js ''USD'')
   \<and> derivedDiscount 17 40 = Some 57
   \<and> extractDiscount (js ''Lamp $17 was $40 '') (Some 17) (Some 40) = Some 57
   \<and> mathRound ((40 - 17) / 40 * 100) = 58
   \<and> \<bar>of_int 57 - (40 - 17) / 40 * 100\<bar> \<le> (1 / 2 + 1 / 10 ^ 12 :: rat)
   \<and> extractDiscount (js ''Lamp $17 was $40 '') None (Some 40) = None"
proof -
  from discount_priority[of "js ''now 25% off''" "Some 80" "Some 100"] explicit_25
  have a: "extractDiscount (js ''now 25% off'') (Some 80) (Some 100) = Some 25"
    by simp
  from discount_priority[of "js ''Lamp $17 was $40 ''" "Some 17" "Some 40"] lamp_explicit
  have "extractDiscount (js ''Lamp $17 was $40 '') (Some 17) (Some 40) =
      (case derivedDiscount 17 40 of
         None \<Rightarrow> None
       | Some n \<Rightarrow> if 0 < n \<and> n \<le> 100 then Some n else None)"
    by simp
  then have b: "extractDiscount (js ''Lamp $17 was $40 '') (Some 17) (Some 40) = Some 57"
    unfolding lamp_derived by simp
  from discount_priority[of "js ''Lamp $17 was $40 ''" None "Some 40"] lamp_explicit
  have c: "extractDiscount (js ''Lamp $17 was $40 '') None (Some 40) = None"
    by simp
  from discount_priority[of "[]" None None] lamp_range
  have "\<exists>n. derivedDiscount 17 40 = Some n
      \<and> \<bar>of_int n - (40 - 17) / 40 * 100\<bar> \<le> (1 / 2 + 1 / 10 ^ 12 :: rat)"
    by blast
  then have e: "\<bar>of_int 57 - (40 - 17) / 40 * 100\<bar> \<le> (1 / 2 + 1 / 10 ^ 12 :: rat)"
    unfolding lamp_derived by simp
  from a b c e explicit_25 lamp_explicit lamp_prices lamp_derived lamp_exact
  show ?thesis by simp
qed

lemma free_discount: "extractDiscount (js '''') (Some 0) (Some 100) = None"
  by (simp add: extractDiscount_def empty_no_phrase truthy_def)

lemma empty_explicit: "explicitDiscount (js '''') = None"
  by code_simp

lemma free_derived: "derivedDiscount 0 100 = Some 100"
  by code_simp

text \<open>
  C3 as first stated asks for the derived discount whenever both prices are present and
  originalPrice is above dealPrice. With dealPrice 0 and originalPrice 100 the derived
  value is 100, within (0, 100], and \<open>extractDiscount\<close> returns null: a price of zero
  counts as absent.
\<close>

theorem discount_counterexample:
  "explicitDiscount (js '''') = None
   \<and> (100 :: rat) > 0
   \<and> mathRound ((100 - 0) / 100 * 100) = 100
   \<and> derivedDiscount 0 100 = Some 100
   \<and> extractDiscount (js '''') (Some 0) (Some 100) = None"
proof -
  have "mathRound ((100 - 0) / 100 * 100) = 100"
    by code_simp
  with free_discount empty_explicit free_derived show ?thesis by simp
qed

lemma links_md: "markdownUrls linksBody = []"
  by code_simp

lemma links_plain:
  "matchAll linksBody plainUrl = [js ''http://example.com/x'', js ''http://amazon.in/dp/123'']"
  by code_simp

lemma example_merchant: "isMerchant (js ''http://example.com/x'') = False"
  by code_simp

lemma amazon_in:
  "isProductUrl (js ''http://amazon.in/dp/123'') \<and> isMerchant (js ''http://amazon.in/dp/123'')
   \<and> cleanTrailing (js ''http://amazon.in/dp/123'') = js ''http://amazon.in/dp/123''"
  by code_simp

lemma links_extract:
  assumes "selftext post = linksBody"
  shows "extractProductUrl post comments = js ''http://amazon.in/dp/123''"
proof -
  have "\<exists>us2. allUrls post comments
      = [js ''http://example.com/x''] @ js ''http://amazon.in/dp/123'' # us2"
    by (simp add: allUrls_def assms links_md links_plain)
  then obtain us2 where "allUrls post comments
      = [js ''http://example.com/x''] @ js ''http://amazon.in/dp/123'' # us2" ..
  from extractProductUrl_prefers[OF this] amazon_in example_merchant
  show ?thesis by simp
qed

text \<open>
  C4. \<open>extractProductUrl\<close> selects in two passes over the candidates \<open>allUrls\<close>, in their
  order: the first candidate that survives \<open>isProductUrl\<close> and matches a pattern of a
  known store; if there is none, the first candidate that survives; if there is none
  either, the permalink. The result is the selected candidate without trailing brackets.
  So a candidate of a known store is preferred to the candidates before it that are not.
  For a body "check this out http://example.com/x then http://amazon.in/dp/123" the
  result is the address at amazon.in, whatever else the post and the comments hold.
\<close>

theorem two_pass_selection:
  "extractProductUrl post comments =
     (case find (\<lambda>u. isProductUrl u \<and> isMerchant u) (allUrls post comments) of
        Some u \<Rightarrow> cleanTrailing u
      | None \<Rightarrow>
          (case find isProductUrl (allUrls post comments) of
             Some u \<Rightarrow> cleanTrailing u
           | None \<Rightarrow> fallback post))
   \<and> (\<forall>us1 u us2. allUrls post comments = us1 @ u # us2 \<and> isProductUrl u \<and> isMerchant u
          \<and> (\<forall>v\<in>set us1. \<not> (isProductUrl v \<and> isMerchant v)) \<longrightarrow>
        extractProductUrl post comments = cleanTrailing u)
   \<and> (selftext post = js ''check this out http://example.com/x then http://amazon.in/dp/123'' \<longrightarrow>
        extractProductUrl post comments = js ''http://amazon.in/dp/123'')"
  using extractProductUrl_spec[of post comments] extractProductUrl_prefers[of post comments]
    links_extract[of post comments]
  unfolding linksBody_def by blast

text \<open>C4 at a post with the body of the example.\<close>

theorem two_pass_selection_witness:
  "selftext linksPost = js ''check this out http://example.com/x then http://amazon.in/dp/123''
   \<and> extractProductUrl linksPost [] = js ''http://amazon.in/dp/123''"
proof -
  have s: "selftext linksPost
      = js ''check this out http://example.com/x then http://amazon.in/dp/123''"
    by (simp add: linksPost_def linksBody_def)
  from two_pass_selection[of linksPost "[]"]
  have "selftext linksPost
      = js ''check this out http://example.com/x then http://amazon.in/dp/123'' \<longrightarrow>
        extractProductUrl linksPost [] = js ''http://amazon.in/dp/123''"
    by (rule conjunct2[THEN conjunct2])
  with s show ?thesis by blast
qed

text \<open>
  C5. For every text, \<open>extractPriceWithCurrency\<close> returns either a price \<open>v\<close> with
  \<open>0 < v < 10,000,000\<close> and the currency of a pattern of \<open>CURRENCY_PATTERNS\<close> whose first
  match in the text reads as \<open>v\<close>; or, when no pattern has an accepted first match (so
  also when no pattern matches at all), no price and the currency USD. \<open>accepted\<close> is
  the amount of the first match of a pattern, when it is a number above 0 and below
  10,000,000.
\<close>

theorem price_with_currency:
  "((\<exists>v c ps p. extractPriceWithCurrency text = (Some v, c) \<and> 0 < v \<and> v < 10000000
        \<and> (c, ps) \<in> set CURRENCY_PATTERNS \<and> p \<in> set ps \<and> accepted text p = Some v)
    \<or> (extractPriceWithCurrency text = (None, js ''USD'')
        \<and> (\<forall>(c, ps)\<in>set CURRENCY_PATTERNS. \<forall>p\<in>set ps. accepted text p = None)))
   \<and> ((\<forall>(c, ps)\<in>set CURRENCY_PATTERNS. \<forall>p\<in>set ps. match text p = None) \<longrightarrow>
        extractPriceWithCurrency text = (None, js ''USD''))"
proof -
  note cases = tryCurrencies_cases[of "text" CURRENCY_PATTERNS, folded extractPriceWithCurrency_def]
  have first: "(\<exists>v c ps p. extractPriceWithCurrency text = (Some v, c) \<and> 0 < v \<and> v < 10000000
        \<and> (c, ps) \<in> set CURRENCY_PATTERNS \<and> p \<in> set ps \<and> accepted text p = Some v)
    \<or> (extractPriceWithCurrency text = (None, js ''USD'')
        \<and> (\<forall>(c, ps)\<in>set CURRENCY_PATTERNS. \<forall>p\<in>set ps. accepted text p = None))"
    using cases accepted_range[of "text"] by blast
  have "extractPriceWithCurrency text = (None, js ''USD'')"
    if none: "\<forall>(c, ps)\<in>set CURRENCY_PATTERNS. \<forall>p\<in>set ps. match text p = None"
  proof -
    from none have "\<forall>(c, ps)\<in>set CURRENCY_PATTERNS. \<forall>p\<in>set ps. accepted text p = None"
      by (auto simp: accepted_def)
    with cases show ?thesis by fastforce
  qed
  with first show ?thesis by blast
qed

lemma no_price: "fst (extractPriceWithCurrency (js ''no price here'')) = None"
  by code_simp

lemma some_price: "fst (extractPriceWithCurrency (js ''$1,234.50 today'')) = Some (2469 / 2)"
  by code_simp

text \<open>C5 at a text without a price, and at a text with one.\<close>

theorem price_with_currency_witness:
  "extractPriceWithCurrency (js ''no price here'') = (None, js ''USD'')
   \<and> extractPriceWithCurrency (js ''$1,234.50 today'') \<noteq> (None, js ''USD'')"
proof -
  from price_with_currency[of "js ''no price here''"] no_price
  have "extractPriceWithCurrency (js ''no price here'') = (None, js ''USD'')"
    by auto
  with some_price show ?thesis by auto
qed

text \<open>
  C6 (amended). When the cleaned title has fewer than 5 code units, \<open>cleanTitle\<close>
  returns the raw title trimmed, as it is; otherwise it returns the cleaned title with
  its first code unit in upper case, which has at least 5 code units. So \<open>cleanTitle\<close>
  returns fewer than 5 code units only when the raw title, trimmed, has fewer than 5.
  The upper case of a code unit of ASCII is that of the letters \<open>a\<close> to \<open>z\<close>; of any
  other code unit it is the row of the Unicode table, which may be longer than one code
  unit.
\<close>

theorem clean_title_length:
  "(length (cleaned t) < 5 \<longrightarrow> cleanTitle up t = trim t)
   \<and> (5 \<le> length (cleaned t) \<longrightarrow>
        cleanTitle up t = toUpperCase up (take 1 (cleaned t)) @ drop 1 (cleaned t)
        \<and> 5 \<le> length (cleanTitle up t))
   \<and> (length (cleanTitle up t) < 5 \<longrightarrow> length (trim t) < 5)
   \<and> (\<forall>c. c < 0x80 \<longrightarrow> toUpperCase up [c] = [upperAscii c])
   \<and> (\<forall>c. 0x80 \<le> c \<longrightarrow>
         toUpperCase up [c] = concat (map encode (fst (up c) # snd (up c))))"
  using cleanTitle_short[of t up] cleanTitle_long[of t up] cleanTitle_length[of up t]
  by (auto simp: toUpperCase_ascii toUpperCase_unit upperPoint_def)

lemma shoes_cleaned:
  "cleaned (js ''mega sale - shoes at half price!!'') = js ''shoes at half price''"
  by code_simp

lemma ab_cleaned: "cleaned (js ''ab      '') = js ''ab''"
  by code_simp

lemma ab_trim: "trim (js ''ab      '') = js ''ab''"
  by code_simp

lemma aermel_cleaned:
  "cleaned ([0xE4] @ js ''rmel shirt 20% off'') = [0xE4] @ js ''rmel shirt 20% off''"
  by code_simp

lemma latin1_upper:
  "toUpperCase latin1 [0xE4] = [0xC4] \<and> toUpperCase latin1 [0xDF] = js ''SS''"
  by code_simp

text \<open>
  C6 at a title that is cleaned, at a title that falls back, and at a title whose first
  letter is U+00E4, which becomes U+00C4; U+00DF would become "SS".
\<close>

theorem clean_title_length_witness:
  "cleanTitle latin1 (js ''mega sale - shoes at half price!!'') = js ''Shoes at half price''
   \<and> cleanTitle latin1 (js ''ab      '') = js ''ab''
   \<and> cleanTitle latin1 ([0xE4] @ js ''rmel shirt 20% off'') = [0xC4] @ js ''rmel shirt 20% off''
   \<and> toUpperCase latin1 [0xDF] = js ''SS''"
proof -
  from clean_title_length[of "js ''mega sale - shoes at half price!!''" latin1]
  have a: "cleanTitle latin1 (js ''mega sale - shoes at half price!!'') = js ''Shoes at half price''"
    unfolding shoes_cleaned
    by (simp add: js_def toUpperCase_def upperPoint_def upperAscii_def)
  from clean_title_length[of "js ''ab      ''" latin1]
  have b: "cleanTitle latin1 (js ''ab      '') = js ''ab''"
    unfolding ab_cleaned ab_trim by (simp add: js_def)
  from clean_title_length[of "[0xE4] @ js ''rmel shirt 20% off''" latin1]
  have "cleanTitle latin1 ([0xE4] @ js ''rmel shirt 20% off'') =
      toUpperCase latin1 [0xE4] @ js ''rmel shirt 20% off''"
    unfolding aermel_cleaned by (simp add: js_def)
  with latin1_upper
  have c: "cleanTitle latin1 ([0xE4] @ js ''rmel shirt 20% off'') = [0xC4] @ js ''rmel shirt 20% off''"
    by simp
  from clean_title_length[of "[]" latin1]
  have "toUpperCase latin1 [0xDF] = concat (map encode (fst (latin1 0xDF) # snd (latin1 0xDF)))"
    by simp
  then have d: "toUpperCase latin1 [0xDF] = js ''SS''"
    by (simp add: latin1_def encode_def js_def)
  from a b c d show ?thesis by simp
qed

text \<open>
  C6 as first stated bounds the result by the length of the raw title, and has the first
  character of every result in upper case. The title "ab" followed by six spaces has 8
  code units, and the result is "ab".
\<close>

theorem clean_title_counterexample:
  "5 \<le> length (js ''ab      '')
   \<and> cleanTitle latin1 (js ''ab      '') = js ''ab''
   \<and> length (js ''ab'') < 5
   \<and> take 1 (js ''ab'') \<noteq> toUpperCase latin1 (take 1 (js ''ab''))"
  using cleanTitle_short[of "js ''ab      ''" latin1]
  unfolding ab_cleaned ab_trim
  by (simp add: js_def toUpperCase_def upperPoint_def upperAscii_def)

text \<open>
  C7 (amended). \<open>parseRedditPost\<close> returns null exactly when the raw title matches one of
  the skip patterns, whatever the body, or all three hold: the price extraction gave no
  dealPrice or the dealPrice 0, no discountPercent was found, and \<open>extractProductUrl\<close>
  fell back to the permalink of the post. In every other case it returns a deal.
\<close>

theorem parse_null_iff:
  "parseRedditPost w post comments = None \<longleftrightarrow>
     skipped post
     \<or> ((fst (extractPrices (fullText post)) = None \<or> fst (extractPrices (fullText post)) = Some 0)
        \<and> extractDiscount (fullText post) (fst (extractPrices (fullText post)))
              (fst (snd (extractPrices (fullText post)))) = None
        \<and> extractProductUrl post comments = fallback post)"
proof -
  have price: "truthy (fst (extractPrices (fullText post))) \<longleftrightarrow>
      \<not> (fst (extractPrices (fullText post)) = None \<or> fst (extractPrices (fullText post)) = Some 0)"
    by (cases "fst (extractPrices (fullText post))") (auto simp: truthy_def)
  have link: "includesStr (extractProductUrl post comments) (js ''reddit.com'') \<longleftrightarrow>
      extractProductUrl post comments = fallback post"
    by (simp add: extractProductUrl_reddit extractProductUrl_fallback)
  show ?thesis
    unfolding parse_gate price link truthy_discount by simp
qed

lemma discussion_skipped: "skipped discussionPost"
  by code_simp

text \<open>C7 at a post with the title "[Discussion] which laptop should I buy" and a body with a price and a link.\<close>

theorem parse_null_iff_witness:
  "skipped discussionPost \<and> parseRedditPost offline discussionPost [] = None"
  using parse_null_iff[of offline discussionPost "[]"] discussion_skipped
  by simp

lemma free_skipped: "skipped freePost = False"
  by code_simp

lemma free_prices: "extractPrices (fullText freePost) = (Some 0, Some 50, js ''USD'')"
  by code_simp

lemma free_discount_none: "extractDiscount (fullText freePost) (Some 0) (Some 50) = None"
  by code_simp

lemma free_urls: "allUrls freePost [] = []"
  by code_simp

text \<open>
  C7 as first stated keeps every post with an extracted dealPrice. The title
  "Game $0 was $50" is not skipped, its dealPrice is 0, and the post is dropped.
\<close>

theorem parse_null_counterexample:
  "\<not> skipped freePost
   \<and> fst (extractPrices (fullText freePost)) = Some 0
   \<and> parseRedditPost offline freePost [] = None"
  using parse_gate[of offline freePost "[]"] extractProductUrl_reddit[of freePost "[]"]
  by (simp add: free_skipped free_prices free_discount_none free_urls truthy_def)

text \<open>
  C8 (amended). The title of every deal that \<open>parseRedditPost\<close> returns is the raw title
  run through \<open>cleanTitle\<close>, and it is not empty whenever the raw title holds a code unit
  that is not white space.
\<close>

theorem deal_title:
  assumes "parseRedditPost w post comments = Some deal"
    and "\<exists>c\<in>set (post_title post). \<not> isSpace c"
  shows "title deal = cleanTitle (upperCase w) (post_title post) \<and> title deal \<noteq> []"
  using parse_title[OF assms(1)] cleanTitle_nonempty[OF assms(2)] by simp

lemma sony_nonspace: "72 \<in> set (post_title sonyPost) \<and> \<not> isSpace 72"
  by code_simp

text \<open>C8 at \<open>sonyPost\<close>, whose title holds the letter H (72).\<close>

theorem deal_title_witness:
  "parseRedditPost offline sonyPost [] \<noteq> None
   \<and> 72 \<in> set (post_title sonyPost) \<and> \<not> isSpace 72
   \<and> title (the (parseRedditPost offline sonyPost [])) \<noteq> []"
proof -
  have "parseRedditPost offline sonyPost [] \<noteq> None"
    using sony_parse[of sonyPost offline] by (simp add: sonyPost_def)
  then obtain deal where d: "parseRedditPost offline sonyPost [] = Some deal" by blast
  from sony_nonspace have "\<exists>c\<in>set (post_title sonyPost). \<not> isSpace c" by blast
  from deal_title[OF d this] have "title deal \<noteq> []" by (rule conjunct2)
  with d sony_nonspace show ?thesis by simp
qed

lemma blank_skipped: "skipped blankPost = False"
  by code_simp

lemma blank_prices: "fst (extractPrices (fullText blankPost)) = Some 5"
  by code_simp

lemma blank_title: "cleanTitle up (post_title blankPost) = []"
  by code_simp

text \<open>
  C8 as first stated has no condition on the raw title. A post with an empty title and
  the body "$5" gives a deal, and the title of the deal is empty.
\<close>

theorem deal_title_counterexample:
  "map_option title (parseRedditPost offline blankPost []) = Some []"
proof -
  have "parseRedditPost offline blankPost [] \<noteq> None"
    using parse_gate[of offline blankPost "[]"]
    by (simp add: blank_skipped blank_prices truthy_def)
  then obtain deal where d: "parseRedditPost offline blankPost [] = Some deal" by blast
  from parse_title[OF d] d show ?thesis by (simp add: blank_title)
qed

text \<open>
  C9 (amended). No failure of the network fetch leaves \<open>fetchOgImage\<close>: when the block
  throws, and so when the request fails or is aborted, when the status is not a success,
  when reading the body fails or when a look-up in the markup fails, \<open>fetchOgImage\<close>
  returns null. \<open>extractImageUrl\<close> then returns the image that it took from the preview
  or the thumbnail of the post, which is null only when the post carries none.
\<close>

theorem image_fetch_failure:
  "(fetchOgImageTry w u = Threw \<longrightarrow> fetchOgImage w u = None)
   \<and> (fetch w u = Threw
       \<or> (\<exists>r. fetch w u = Returned r \<and>
            (\<not> ok r \<or> body r = Threw
             \<or> (\<exists>markup. body r = Returned markup \<and>
                  (ogImage w markup = Threw
                   \<or> (\<exists>i. ogImage w markup = Returned i \<and> \<not> truthyStr i
                          \<and> twitterImage w markup = Threw)))))
       \<longrightarrow> fetchOgImage w u = None)
   \<and> (fetchOgImage w u = None \<longrightarrow> extractImageUrl w post u = postImage post)"
  using fetchOgImage_failure[of w u] extractImageUrl_no_og[of w u post]
  by (auto simp: fetchOgImage_def)

lemma sony_postImage: "postImage sonyPost = None"
  by code_simp

text \<open>C9 in a world where every request fails, at a post without an image.\<close>

theorem image_fetch_failure_witness:
  "fetch offline sonyUrl = Threw
   \<and> fetchOgImage offline sonyUrl = None
   \<and> extractImageUrl offline sonyPost sonyUrl = None"
proof -
  have f: "fetch offline sonyUrl = Threw" by (simp add: offline_def)
  with image_fetch_failure[of offline sonyUrl sonyPost] show ?thesis
    by (simp add: sony_postImage)
qed

lemma preview_postImage:
  "postImage previewPost = Some (js ''https://external-preview.redd.it/a.jpg'')"
  by code_simp

text \<open>
  C9 as first stated has the image null after a failure. A post with a preview image at
  \<open>external-preview.redd.it\<close> keeps that image when the request fails.
\<close>

theorem image_fetch_counterexample:
  "fetch offline sonyUrl = Threw
   \<and> extractImageUrl offline previewPost sonyUrl
       = Some (js ''https://external-preview.redd.it/a.jpg'')"
proof -
  have f: "fetch offline sonyUrl = Threw" by (simp add: offline_def)
  then have "fetchOgImage offline sonyUrl = None"
    using fetchOgImage_failure[of offline sonyUrl] by simp
  from extractImageUrl_no_og[OF this, of previewPost] f show ?thesis
    by (simp add: preview_postImage)
qed

lemma zero_pair: "extractPrices (js ''$0 was $5'') = (Some 0, Some 5, js ''USD'')"
  by code_simp

lemma big_pair: "extractPrices (js ''$1 was $10000000'') = (Some 1, Some 10000000, js ''USD'')"
  by code_simp

lemma zero_single: "extractPriceWithCurrency (js ''$0'') = (None, js ''USD'')"
  by code_simp

lemma big_single: "extractPriceWithCurrency (js ''$10000000'') = (None, js ''USD'')"
  by code_simp

lemma zero_zero_pair: "firstPair (js ''$0 was $0'') = Some (0, 0, js ''USD'')"
  by code_simp

text \<open>
  C10. When a pair pattern matches, \<open>extractPrices\<close> checks the two amounts for being
  numbers only, and not for their size: whatever the two numbers of \<open>firstPair\<close> are,
  they are returned. "$0 was $5" gives the dealPrice 0 and "$1 was $10000000" gives the
  originalPrice 10,000,000, two values that \<open>extractPriceWithCurrency\<close> rejects.
\<close>

theorem pair_prices_unbounded:
  "(\<forall>text a b c. firstPair text = Some (a, b, c) \<longrightarrow>
       extractPrices text = (Some (min a b), Some (max a b), c))
   \<and> (\<exists>text. fst (extractPrices text) = Some 0)
   \<and> (\<exists>text p. fst (snd (extractPrices text)) = Some p \<and> 10000000 \<le> p)
   \<and> extractPrices (js ''$0 was $5'') = (Some 0, Some 5, js ''USD'')
   \<and> extractPrices (js ''$1 was $10000000'') = (Some 1, Some 10000000, js ''USD'')
   \<and> extractPriceWithCurrency (js ''$0'') = (None, js ''USD'')
   \<and> extractPriceWithCurrency (js ''$10000000'') = (None, js ''USD'')"
proof -
  have "\<forall>text a b c. firstPair text = Some (a, b, c) \<longrightarrow>
       extractPrices text = (Some (min a b), Some (max a b), c)"
    unfolding extractPrices_def firstPair_def tryDealPatterns_spec by simp
  moreover have "fst (extractPrices (js ''$0 was $5'')) = Some 0"
    by (simp add: zero_pair)
  moreover have "fst (snd (extractPrices (js ''$1 was $10000000''))) = Some 10000000
      \<and> (10000000 :: rat) \<le> 10000000"
    by (simp add: big_pair)
  ultimately show ?thesis
    using zero_pair big_pair zero_single big_single by blast
qed

text \<open>C10 at the text "$0 was $0".\<close>

theorem pair_prices_unbounded_witness:
  "firstPair (js ''$0 was $0'') = Some (0, 0, js ''USD'')
   \<and> extractPrices (js ''$0 was $0'') = (Some 0, Some 0, js ''USD'')"
proof -
  from pair_prices_unbounded
  have "firstPair (js ''$0 was $0'') = Some (0, 0, js ''USD'') \<longrightarrow>
      extractPrices (js ''$0 was $0'') = (Some (min 0 0), Some (max 0 0), js ''USD'')"
    by blast
  with zero_zero_pair show ?thesis by simp
qed

end
